theory Spec2Isabelle
  imports Complex_Main "HOL-Library.Monad_Syntax"
begin

section \<open>The AI-text detection service (backend/app/services/ai\_detection.py)\<close>

text \<open>
  A shallow embedding of \<^verbatim>\<open>AIDetectionService\<close>. Conventions of the model:
  \<^item> a Python \<^verbatim>\<open>str\<close> is a \<open>string\<close>; each \<open>char\<close> is one code point below 256
    (ISO-8859-1), so \<open>length\<close> is Python's \<^verbatim>\<open>len\<close> on such texts;
  \<^item> a Python \<^verbatim>\<open>float\<close> is a \<open>real\<close>: arithmetic is exact, \<^verbatim>\<open>round(x, n)\<close> rounds
    half to even at \<open>n\<close> decimals. The model agrees with the code up to the rounding
    errors of IEEE double arithmetic: where such an error moves a sum, a quotient or a
    square root across a threshold or off a rounding tie, the two differ;
  \<^item> a Python exception (\<^verbatim>\<open>ZeroDivisionError\<close>, \<^verbatim>\<open>ValueError\<close>) is the value \<open>None\<close>
    of the option monad; the "too short" dictionary is \<open>Inl\<close> of its error message.
\<close>

subsection \<open>Characters and the string methods the service calls\<close>

text \<open>\<^verbatim>\<open>str.isspace\<close> on one character.\<close>

definition isspace :: "char \<Rightarrow> bool" where
  "isspace c =
     (let n = (of_char c :: int)
      in (9 \<le> n \<and> n \<le> 13) \<or> (28 \<le> n \<and> n \<le> 32) \<or> n = 133 \<or> n = 160)"

text \<open>The class \<^verbatim>\<open>\w\<close> of a \<^verbatim>\<open>str\<close> pattern: alphanumeric or underscore.\<close>

definition is_word_char :: "char \<Rightarrow> bool" where
  "is_word_char c =
     (let n = (of_char c :: int)
      in (48 \<le> n \<and> n \<le> 57) \<or> (65 \<le> n \<and> n \<le> 90) \<or> n = 95 \<or> (97 \<le> n \<and> n \<le> 122)
         \<or> n = 170 \<or> n = 178 \<or> n = 179 \<or> n = 181 \<or> n = 185 \<or> n = 186
         \<or> (188 \<le> n \<and> n \<le> 190) \<or> (192 \<le> n \<and> n \<le> 214) \<or> (216 \<le> n \<and> n \<le> 246)
         \<or> (248 \<le> n \<and> n \<le> 255))"

text \<open>\<^verbatim>\<open>str.lower\<close>.\<close>

definition lower_char :: "char \<Rightarrow> char" where
  "lower_char c =
     (let n = (of_char c :: int)
      in if (65 \<le> n \<and> n \<le> 90) \<or> (192 \<le> n \<and> n \<le> 214) \<or> (216 \<le> n \<and> n \<le> 222)
         then char_of (n + 32) else c)"

definition lower :: "string \<Rightarrow> string" where
  "lower s = map lower_char s"

text \<open>\<^verbatim>\<open>s.strip(chars)\<close>, with the set of characters as a predicate; \<^verbatim>\<open>s.strip()\<close>.\<close>

definition strip_chars :: "(char \<Rightarrow> bool) \<Rightarrow> string \<Rightarrow> string" where
  "strip_chars P s = rev (dropWhile P (rev (dropWhile P s)))"

definition strip :: "string \<Rightarrow> string" where
  "strip s = strip_chars isspace s"

text \<open>\<^verbatim>\<open>string.punctuation\<close>.\<close>

definition punctuation :: string where
  "punctuation = [CHR 0x21, CHR 0x22, CHR 0x23, CHR 0x24, CHR 0x25, CHR 0x26, CHR 0x27,
     CHR 0x28, CHR 0x29, CHR 0x2A, CHR 0x2B, CHR 0x2C, CHR 0x2D, CHR 0x2E, CHR 0x2F,
     CHR 0x3A, CHR 0x3B, CHR 0x3C, CHR 0x3D, CHR 0x3E, CHR 0x3F, CHR 0x40,
     CHR 0x5B, CHR 0x5C, CHR 0x5D, CHR 0x5E, CHR 0x5F, CHR 0x60,
     CHR 0x7B, CHR 0x7C, CHR 0x7D, CHR 0x7E]"

text \<open>
  The maximal runs of characters that are not separators, in order: \<^verbatim>\<open>s.split()\<close> when
  the separators are the whitespace characters, \<^verbatim>\<open>re.findall(r'\b\w+\b', s)\<close> when they
  are the characters outside \<^verbatim>\<open>\w\<close>.
\<close>

function runs_between :: "(char \<Rightarrow> bool) \<Rightarrow> string \<Rightarrow> string list" where
  "runs_between sep s =
     (let s' = dropWhile sep s
      in if s' = [] then []
         else takeWhile (\<lambda>c. \<not> sep c) s' # runs_between sep (dropWhile (\<lambda>c. \<not> sep c) s'))"
  by pat_completeness auto

lemma length_dropWhile_hd:
  "xs \<noteq> [] \<Longrightarrow> P (hd xs) \<Longrightarrow> length (dropWhile P xs) < length xs"
  by (cases xs) (simp_all add: le_imp_less_Suc length_dropWhile_le)

lemma hd_dropWhile_not:
  "dropWhile P xs \<noteq> [] \<Longrightarrow> \<not> P (hd (dropWhile P xs))"
  by (simp add: hd_dropWhile)

termination runs_between
proof (relation "measure (\<lambda>(sep, s). length s)")
  show "wf (measure (\<lambda>(sep, s). length s))" by simp
next
  fix sep :: "char \<Rightarrow> bool" and s x :: string
  assume x: "x = dropWhile sep s" and ne: "x \<noteq> []"
  have "length (dropWhile (\<lambda>c. \<not> sep c) x) < length x"
    using ne hd_dropWhile_not [of sep s] x by (intro length_dropWhile_hd) simp_all
  moreover have "length x \<le> length s"
    using x by (simp add: length_dropWhile_le)
  ultimately show "((sep, dropWhile (\<lambda>c. \<not> sep c) x), (sep, s)) \<in> measure (\<lambda>(sep, s). length s)"
    by simp
qed

declare runs_between.simps [simp del]

definition split_ws :: "string \<Rightarrow> string list" where
  "split_ws s = runs_between isspace s"

definition findall_words :: "string \<Rightarrow> string list" where
  "findall_words s = runs_between (\<lambda>c. \<not> is_word_char c) s"

text \<open>\<^verbatim>\<open>re.split(r'[.!?]+', s)\<close>: the pieces between the runs, empty ones included.\<close>

definition is_terminator :: "char \<Rightarrow> bool" where
  "is_terminator c = (c = CHR ''.'' \<or> c = CHR ''!'' \<or> c = CHR ''?'')"

function re_split :: "string \<Rightarrow> string list" where
  "re_split s =
     (let piece = takeWhile (\<lambda>c. \<not> is_terminator c) s;
          rest = dropWhile (\<lambda>c. \<not> is_terminator c) s
      in if rest = [] then [piece] else piece # re_split (dropWhile is_terminator rest))"
  by pat_completeness auto

termination re_split
proof (relation "measure length")
  show "wf (measure length)" by simp
next
  fix s x xa :: string
  assume xa: "xa = dropWhile (\<lambda>c. \<not> is_terminator c) s" and ne: "xa \<noteq> []"
  have "is_terminator (hd xa)"
    using ne hd_dropWhile_not [of "\<lambda>c. \<not> is_terminator c" s] xa by simp
  then have "length (dropWhile is_terminator xa) < length xa"
    using ne by (intro length_dropWhile_hd)
  moreover have "length xa \<le> length s"
    using xa by (simp add: length_dropWhile_le)
  ultimately show "(dropWhile is_terminator xa, s) \<in> measure length"
    by simp
qed

declare re_split.simps [simp del]

text \<open>\<^verbatim>\<open>s.split('\n\n')\<close>, the pieces collected in a reversed accumulator.\<close>

fun split_blank :: "string \<Rightarrow> string \<Rightarrow> string list" where
  "split_blank acc [] = [rev acc]"
| "split_blank acc [c] = [rev (c # acc)]"
| "split_blank acc (c # d # cs) =
     (if c = CHR 0x0A \<and> d = CHR 0x0A then rev acc # split_blank [] cs
      else split_blank (c # acc) (d # cs))"

text \<open>
  The list comprehension
  \<^verbatim>\<open>[s.strip() for s in re.split(r'[.!?]+', text) if s.strip()]\<close> of the analyzers, and
  \<^verbatim>\<open>[p.strip() for p in text.split('\n\n') if p.strip()]\<close>.
\<close>

definition sentence_list :: "string \<Rightarrow> string list" where
  "sentence_list text = map strip (filter (\<lambda>s. strip s \<noteq> []) (re_split text))"

definition paragraph_list :: "string \<Rightarrow> string list" where
  "paragraph_list text = map strip (filter (\<lambda>p. strip p \<noteq> []) (split_blank [] text))"

subsection \<open>Regular expressions\<close>

text \<open>
  The fragment of \<^verbatim>\<open>re\<close> the patterns are written in: literals, \<^verbatim>\<open>.*\<close>, \<^verbatim>\<open>\b\<close>,
  concatenation and alternation. A cursor is a position in the text: the character before
  it (none at the start) and the text from it on. \<open>rmatch ic r cur\<close> lists the cursors
  where a match of \<open>r\<close> that starts at \<open>cur\<close> can end; \<open>ic\<close> is \<^verbatim>\<open>re.IGNORECASE\<close>.
\<close>

datatype regex = Lit string | AnyStar | Boundary | Cat regex regex | Or regex regex

type_synonym cursor = "char option \<times> string"

fun lit_match :: "bool \<Rightarrow> string \<Rightarrow> cursor \<Rightarrow> cursor list" where
  "lit_match ic [] cur = [cur]"
| "lit_match ic (p # ps) (prev, []) = []"
| "lit_match ic (p # ps) (prev, c # cs) =
     (if (if ic then lower_char c = lower_char p else c = p)
      then lit_match ic ps (Some c, cs) else [])"

text \<open>\<^verbatim>\<open>.*\<close>: any number of characters other than the newline.\<close>

fun any_star :: "cursor \<Rightarrow> cursor list" where
  "any_star (prev, []) = [(prev, [])]"
| "any_star (prev, c # cs) =
     (prev, c # cs) # (if c = CHR 0x0A then [] else any_star (Some c, cs))"

text \<open>\<^verbatim>\<open>\b\<close>: exactly one side of the position is a word character.\<close>

definition boundary_at :: "cursor \<Rightarrow> bool" where
  "boundary_at cur =
     ((case fst cur of None \<Rightarrow> False | Some c \<Rightarrow> is_word_char c) \<noteq>
      (case snd cur of [] \<Rightarrow> False | c # _ \<Rightarrow> is_word_char c))"

fun rmatch :: "bool \<Rightarrow> regex \<Rightarrow> cursor \<Rightarrow> cursor list" where
  "rmatch ic (Lit s) cur = lit_match ic s cur"
| "rmatch ic AnyStar cur = any_star cur"
| "rmatch ic Boundary cur = (if boundary_at cur then [cur] else [])"
| "rmatch ic (Cat r1 r2) cur = concat (map (rmatch ic r2) (rmatch ic r1 cur))"
| "rmatch ic (Or r1 r2) cur = rmatch ic r1 cur @ rmatch ic r2 cur"

text \<open>\<^verbatim>\<open>re.search(r, t)\<close> is truthy when a match starts at some position.\<close>

fun search_from :: "bool \<Rightarrow> regex \<Rightarrow> cursor \<Rightarrow> bool" where
  "search_from ic r (prev, []) = (rmatch ic r (prev, []) \<noteq> [])"
| "search_from ic r (prev, c # cs) =
     (rmatch ic r (prev, c # cs) \<noteq> [] \<or> search_from ic r (Some c, cs))"

definition re_search :: "bool \<Rightarrow> regex \<Rightarrow> string \<Rightarrow> bool" where
  "re_search ic r t = search_from ic r (None, t)"

text \<open>\<^verbatim>\<open>(a|b|...)\<close> over literals, and \<^verbatim>\<open>\b(...)\b\<close>.\<close>

fun one_of :: "string \<Rightarrow> string list \<Rightarrow> regex" where
  "one_of s [] = Lit s"
| "one_of s (x # xs) = Or (Lit s) (one_of x xs)"

definition bounded :: "regex \<Rightarrow> regex" where
  "bounded r = Cat Boundary (Cat r Boundary)"

subsection \<open>Arithmetic that can raise, and rounding\<close>

text \<open>True division (\<^verbatim>\<open>ZeroDivisionError\<close>) and \<^verbatim>\<open>math.sqrt\<close> (\<^verbatim>\<open>ValueError\<close>).\<close>

definition truediv :: "real \<Rightarrow> real \<Rightarrow> real option" where
  "truediv a b = (if b = 0 then None else Some (a / b))"

definition math_sqrt :: "real \<Rightarrow> real option" where
  "math_sqrt x = (if x < 0 then None else Some (sqrt x))"

definition round_half_even :: "real \<Rightarrow> int" where
  "round_half_even x =
     (let f = \<lfloor>x\<rfloor>; d = x - of_int f
      in if d < 1 / 2 then f else if 1 / 2 < d then f + 1 else if even f then f else f + 1)"

definition py_round :: "real \<Rightarrow> nat \<Rightarrow> real" where
  "py_round x n = of_int (round_half_even (x * 10 ^ n)) / 10 ^ n"

text \<open>\<^verbatim>\<open>max(xs)\<close> and \<^verbatim>\<open>min(xs)\<close> raise \<^verbatim>\<open>ValueError\<close> on an empty sequence.\<close>

definition py_max :: "nat list \<Rightarrow> nat option" where
  "py_max xs = (case xs of [] \<Rightarrow> None | x # rest \<Rightarrow> Some (fold max rest x))"

definition py_min :: "nat list \<Rightarrow> nat option" where
  "py_min xs = (case xs of [] \<Rightarrow> None | x # rest \<Rightarrow> Some (fold min rest x))"

text \<open>\<^verbatim>\<open>max(xs, key=f)\<close>: the first element whose key is maximal.\<close>

definition py_max_key :: "('a \<Rightarrow> nat) \<Rightarrow> 'a list \<Rightarrow> 'a option" where
  "py_max_key f xs =
     (case xs of [] \<Rightarrow> None
      | x # rest \<Rightarrow> Some (fold (\<lambda>y best. if f best < f y then y else best) rest x))"

text \<open>
  \<^verbatim>\<open>collections.Counter(xs)\<close> as an association list: the keys in the order of their
  first occurrence, each with its number of occurrences.
\<close>

definition counter :: "'a list \<Rightarrow> ('a \<times> nat) list" where
  "counter xs = map (\<lambda>k. (k, count_list xs k)) (rev (remdups (rev xs)))"

definition counter_values :: "('a \<times> nat) list \<Rightarrow> nat list" where
  "counter_values c = map snd c"

definition counter_get :: "('a \<times> nat) list \<Rightarrow> 'a \<Rightarrow> nat" where
  "counter_get c k = (case map_of c k of None \<Rightarrow> 0 | Some n \<Rightarrow> n)"

subsection \<open>The lexicons set up by \<^verbatim>\<open>__init__\<close>\<close>

definition self_reference_pattern :: regex where
  "self_reference_pattern =
     bounded (one_of ''as an AI'' [''I am an AI'', ''I'm an AI'', ''language model'',
       ''AI assistant''])"

definition limitation_pattern :: regex where
  "limitation_pattern =
     Cat Boundary (Cat (one_of ''I don't have'' [''I cannot'', ''I can't''])
       (Cat (Lit '' '') (Cat (one_of ''personal'' [''opinions'', ''feelings'', ''emotions'',
         ''access'']) Boundary)))"

definition hedging_pattern :: regex where
  "hedging_pattern =
     bounded (one_of ''it's important to note'' [''it's worth noting'', ''it should be noted''])"

definition summary_pattern :: regex where
  "summary_pattern =
     bounded (one_of ''in conclusion'' [''to summarize'', ''in summary'', ''to sum up''])"

definition delve_pattern :: regex where
  "delve_pattern =
     bounded (one_of ''delve into'' [''dive into'', ''exploring'', ''understanding'',
       ''navigating''])"

definition embark_pattern :: regex where
  "embark_pattern =
     bounded (one_of ''embark on'' [''journey into'', ''landscape of'', ''realm of'',
       ''world of''])"

definition guide_pattern :: regex where
  "guide_pattern =
     bounded (one_of ''comprehensive guide'' [''step-by-step'', ''detailed overview''])"

definition ensure_pattern :: regex where
  "ensure_pattern =
     bounded (one_of ''ensure that'' [''make sure'', ''it is crucial'', ''vital to''])"

definition ranging_pattern :: regex where
  "ranging_pattern =
     bounded (Or (Cat (Lit ''ranging from '') (Cat AnyStar (Lit '' to'')))
                 (Cat (Lit ''from '') (Cat AnyStar (Cat (Lit '' to '') AnyStar))))"

definition whether_pattern :: regex where
  "whether_pattern =
     bounded (one_of ''whether you're'' [''whether it's'', ''regardless of''])"

definition foremost_pattern :: regex where
  "foremost_pattern = bounded (one_of ''first and foremost'' [''last but not least''])"

definition pros_cons_pattern :: regex where
  "pros_cons_pattern = bounded (one_of ''pros and cons'' [''advantages and disadvantages''])"

definition cutting_edge_pattern :: regex where
  "cutting_edge_pattern =
     bounded (one_of ''cutting-edge'' [''state-of-the-art'', ''revolutionary''])"

definition game_changer_pattern :: regex where
  "game_changer_pattern =
     bounded (one_of ''game-changer'' [''paradigm shift'', ''transforms the way''])"

definition ai_patterns :: "regex list" where
  "ai_patterns = [self_reference_pattern, limitation_pattern, hedging_pattern,
     summary_pattern, delve_pattern, embark_pattern, guide_pattern, ensure_pattern,
     ranging_pattern, whether_pattern, foremost_pattern, pros_cons_pattern,
     cutting_edge_pattern, game_changer_pattern]"

definition ai_transitions :: "string list" where
  "ai_transitions = [''however'', ''furthermore'', ''moreover'', ''additionally'',
     ''consequently'', ''therefore'', ''thus'', ''hence'', ''nevertheless'', ''nonetheless'',
     ''meanwhile'', ''subsequently'', ''accordingly'', ''likewise'', ''similarly'']"

definition ai_buzzwords :: "string list" where
  "ai_buzzwords = [''leverage'', ''optimize'', ''utilize'', ''facilitate'', ''implement'',
     ''demonstrate'', ''indicate'', ''comprehensive'', ''significant'', ''substantial'',
     ''optimal'', ''crucial'', ''vital'', ''essential'', ''robust'', ''seamless'',
     ''innovative'', ''revolutionize'', ''enhance'', ''streamline'', ''dynamic'', ''versatile'',
     ''efficient'', ''effective'']"

text \<open>The local list of \<^verbatim>\<open>_analyze_vocabulary\<close>.\<close>

definition formal_words :: "string list" where
  "formal_words = [''utilize'', ''facilitate'', ''implement'', ''demonstrate'', ''indicate'',
     ''comprehensive'', ''significant'', ''substantial'', ''optimal'', ''crucial'',
     ''moreover'', ''furthermore'', ''subsequently'', ''consequently'', ''nevertheless'']"

text \<open>The regular expressions written out in \<^verbatim>\<open>_get_indicators\<close>.\<close>

definition indicator_self_reference :: regex where
  "indicator_self_reference =
     bounded (one_of ''as an AI'' [''I am an AI'', ''language model'', ''AI assistant''])"

definition indicator_hedging :: regex where
  "indicator_hedging =
     bounded (one_of ''it's important to note'' [''it's worth noting'', ''it should be noted''])"

definition indicator_metaphor :: regex where
  "indicator_metaphor =
     bounded (one_of ''delve into'' [''dive into'', ''embark on'', ''journey into'',
       ''landscape of''])"

subsection \<open>The five analyzers\<close>

text \<open>
  The statements that \<^verbatim>\<open>_analyze_structure\<close>, \<^verbatim>\<open>_analyze_consistency\<close> and
  \<^verbatim>\<open>_get_indicators\<close> each repeat on a list of word counts: mean, population variance,
  standard deviation, and the coefficient of variation (\<open>1.0\<close> when the mean is not
  positive).
\<close>

definition coeff_variation :: "nat list \<Rightarrow> real option" where
  "coeff_variation lengths = do {
     avg_length \<leftarrow> truediv (real (sum_list lengths)) (real (length lengths));
     variance \<leftarrow> truediv (\<Sum>l\<leftarrow>lengths. (real l - avg_length) ^ 2) (real (length lengths));
     std_dev \<leftarrow> math_sqrt variance;
     (if avg_length > 0 then truediv std_dev avg_length else Some 1.0)
   }"

text \<open>
  \<^verbatim>\<open>sum(1 for word in words if word.strip(string.punctuation) in lexicon)\<close>, as in
  \<^verbatim>\<open>_check_ai_patterns\<close> and \<^verbatim>\<open>_get_indicators\<close>.
\<close>

definition count_in_lexicon :: "string list \<Rightarrow> string list \<Rightarrow> nat" where
  "count_in_lexicon lexicon words =
     length (filter (\<lambda>word. strip_chars (\<lambda>c. c \<in> set punctuation) word \<in> set lexicon) words)"

definition check_ai_patterns :: "string \<Rightarrow> real option" where
  "check_ai_patterns text =
     (let text_lower = lower text;
          score = (0 :: real);
          pattern_matches = length (filter (\<lambda>pattern. re_search True pattern text_lower) ai_patterns);
          score = (if pattern_matches > 0 then score + min (real pattern_matches * 0.25) 0.8
                   else score);
          words = split_ws text_lower
      in do {
        score \<leftarrow>
          (if words \<noteq> [] then do {
             let transition_count = count_in_lexicon ai_transitions words;
             transition_ratio \<leftarrow> truediv (real transition_count) (real (length words));
             Some (if transition_ratio \<ge> 0.08 then score + min (transition_ratio * 3) 0.5
                   else if transition_ratio \<ge> 0.05 then score + 0.2
                   else score)
           } else Some score);
        Some (min score 1.0)
      })"

definition analyze_structure :: "string \<Rightarrow> real option" where
  "analyze_structure text =
     (let sentences = sentence_list text
      in if length sentences < 2 then Some 0.2
         else do {
           let score = (0 :: real);
           let lengths = map (\<lambda>s. length (split_ws s)) sentences;
           cv \<leftarrow> coeff_variation lengths;
           let score = (if cv < 0.30 then score + 0.6
                        else if cv < 0.40 then score + 0.4
                        else score + 0.1);
           let medium_length_count = length (filter (\<lambda>l. 12 \<le> l \<and> l \<le> 20) lengths);
           medium_ratio \<leftarrow> truediv (real medium_length_count) (real (length lengths));
           let score = (if medium_ratio > 0.6 then score + 0.4
                        else if medium_ratio > 0.4 then score + 0.2
                        else score);
           Some (min score 1.0)
         })"

definition analyze_vocabulary :: "string \<Rightarrow> real option" where
  "analyze_vocabulary text =
     (let words = findall_words (lower text)
      in if length words < 10 then Some 0.2
         else do {
           let score = (0 :: real);
           let unique_words = set words;
           diversity \<leftarrow> truediv (real (card unique_words)) (real (length words));
           let buzzword_count = length (filter (\<lambda>word. word \<in> set ai_buzzwords) words);
           buzzword_ratio \<leftarrow> truediv (real buzzword_count) (real (length words));
           let score = (if buzzword_ratio > 0.03 then score + 0.5
                        else if buzzword_ratio > 0.02 then score + 0.3
                        else if buzzword_ratio > 0.01 then score + 0.15
                        else score);
           let formal_count = length (filter (\<lambda>word. word \<in> set formal_words) words);
           formal_ratio \<leftarrow> truediv (real formal_count) (real (length words));
           let score = (if formal_ratio > 0.04 then score + 0.4
                        else if formal_ratio > 0.02 then score + 0.2
                        else score);
           let score = (if 0.45 \<le> diversity \<and> diversity \<le> 0.65 then score + 0.3 else score);
           Some (min score 1.0)
         })"

definition analyze_consistency :: "string \<Rightarrow> real option" where
  "analyze_consistency text = do {
     let score = (0 :: real);
     let punctuation_count =
           count_list text CHR '','' + count_list text CHR '';'' + count_list text CHR '':'';
     let words_count = length (split_ws text);
     punctuation_ratio \<leftarrow>
       (if words_count > 0 then truediv (real punctuation_count) (real words_count) else Some 0);
     let score = (if 0.08 \<le> punctuation_ratio \<and> punctuation_ratio \<le> 0.15 then score + 0.5
                  else if 0.05 \<le> punctuation_ratio \<and> punctuation_ratio \<le> 0.18 then score + 0.25
                  else score);
     let paragraphs = paragraph_list text;
     score \<leftarrow>
       (if length paragraphs > 1 then do {
          let para_lengths = map (\<lambda>p. length (split_ws p)) paragraphs;
          para_cv \<leftarrow> coeff_variation para_lengths;
          Some (if para_cv < 0.25 then score + 0.5
                else if para_cv < 0.40 then score + 0.3
                else score)
        } else Some score);
     Some (min score 1.0)
   }"

text \<open>
  \<^verbatim>\<open>[s.split()[0].lower() if s.split() else '' for s in sentences]\<close>, as in
  \<^verbatim>\<open>_check_repetition\<close> and \<^verbatim>\<open>_get_indicators\<close>.
\<close>

definition sentence_starts :: "string list \<Rightarrow> string list" where
  "sentence_starts sentences =
     map (\<lambda>s. if split_ws s \<noteq> [] then lower (hd (split_ws s)) else []) sentences"

text \<open>The bigrams \<^verbatim>\<open>f"{words[i]} {words[i+1]}"\<close> of the sentences, in order.\<close>

definition sentence_bigrams :: "string list \<Rightarrow> string list" where
  "sentence_bigrams sentences =
     concat (map (\<lambda>sentence.
       let words = split_ws (lower sentence)
       in if length words \<ge> 2
          then map (\<lambda>i. words ! i @ '' '' @ words ! (i + 1)) [0 ..< length words - 1]
          else []) sentences)"

definition check_repetition :: "string \<Rightarrow> real" where
  "check_repetition text =
     (let sentences = sentence_list text
      in if length sentences < 3 then 0.0
         else
           let score = (0 :: real);
               starts = sentence_starts sentences;
               start_counts = counter starts;
               score = (if \<exists>count \<in> set (counter_values start_counts). count > 2
                        then score + 0.3 else score);
               bigrams = sentence_bigrams sentences;
               score =
                 (if bigrams \<noteq> [] then
                    let bigram_counts = counter bigrams;
                        repeated = length (filter (\<lambda>count. count > 2) (counter_values bigram_counts))
                    in if repeated > 0 then score + min (real repeated * 0.2) 0.5 else score
                  else score)
           in min score 1.0)"

subsection \<open>The indicator reporter\<close>

text \<open>
  One constructor for each message \<^verbatim>\<open>_get_indicators\<close> can append, with the values its
  f-string formats: "Contains explicit AI self-reference phrases", "Uses common AI hedging
  phrases", "Uses AI-typical metaphorical language", "High usage of AI buzzwords (n
  instances)", "Excessive formal transition words (p%)", "Unnaturally consistent sentence
  structure", "Uniformly balanced paragraph lengths", "Repetitive sentence openings ('w'
  used n times)", and "No strong AI indicators detected".
\<close>

datatype indicator =
    Explicit_self_reference
  | Hedging_phrases
  | Metaphorical_language
  | High_buzzwords nat
  | Excessive_transitions real
  | Consistent_structure
  | Balanced_paragraphs
  | Repetitive_openings string nat
  | No_strong_indicators

text \<open>
  The reporter runs its checks in the order of the source, each appending to the list
  built so far. The first check is the three \<^verbatim>\<open>re.search\<close> tests on the lowered text
  (compiled without \<^verbatim>\<open>re.IGNORECASE\<close>); the others are the blocks the source marks
  "Check buzzwords", "Check transition words", "Check structure consistency", "Check for
  balanced paragraphs" and "Check repetitive starts".
\<close>

definition check_explicit_patterns :: "string \<Rightarrow> indicator list \<Rightarrow> indicator list" where
  "check_explicit_patterns text_lower indicators =
     (let indicators = (if re_search False indicator_self_reference text_lower
                        then indicators @ [Explicit_self_reference] else indicators);
          indicators = (if re_search False indicator_hedging text_lower
                        then indicators @ [Hedging_phrases] else indicators);
          indicators = (if re_search False indicator_metaphor text_lower
                        then indicators @ [Metaphorical_language] else indicators)
      in indicators)"

definition check_buzzwords :: "string list \<Rightarrow> indicator list \<Rightarrow> indicator list option" where
  "check_buzzwords words indicators =
     (if words \<noteq> [] then do {
        let buzzword_count = count_in_lexicon ai_buzzwords words;
        buzzword_ratio \<leftarrow> truediv (real buzzword_count) (real (length words));
        Some (if buzzword_ratio > 0.02 then indicators @ [High_buzzwords buzzword_count]
              else indicators)
      } else Some indicators)"

definition check_transitions :: "string list \<Rightarrow> indicator list \<Rightarrow> indicator list option" where
  "check_transitions words indicators =
     (if words \<noteq> [] then do {
        let transition_count = count_in_lexicon ai_transitions words;
        transition_ratio \<leftarrow> truediv (real transition_count) (real (length words));
        Some (if transition_ratio > 0.07
              then indicators @ [Excessive_transitions (py_round (transition_ratio * 100) 1)]
              else indicators)
      } else Some indicators)"

definition check_structure_consistency ::
  "string list \<Rightarrow> indicator list \<Rightarrow> indicator list option" where
  "check_structure_consistency sentences indicators =
     (if length sentences > 2 then do {
        let lengths = map (\<lambda>s. length (split_ws s)) sentences;
        cv \<leftarrow> coeff_variation lengths;
        Some (if cv < 0.30 then indicators @ [Consistent_structure] else indicators)
      } else Some indicators)"

definition check_balanced_paragraphs ::
  "string list \<Rightarrow> indicator list \<Rightarrow> indicator list option" where
  "check_balanced_paragraphs paragraphs indicators =
     (if length paragraphs > 2 then do {
        let para_lengths = map (\<lambda>p. length (split_ws p)) paragraphs;
        longest \<leftarrow> py_max para_lengths;
        shortest \<leftarrow> py_min para_lengths;
        Some (if int longest - int shortest < 30 then indicators @ [Balanced_paragraphs]
              else indicators)
      } else Some indicators)"

definition check_repetitive_starts ::
  "string list \<Rightarrow> indicator list \<Rightarrow> indicator list option" where
  "check_repetitive_starts sentences indicators =
     (if length sentences > 3 then do {
        let starts = sentence_starts sentences;
        let start_counts = counter starts;
        max_repeat \<leftarrow> py_max (counter_values start_counts);
        (if max_repeat > 2 then do {
           most_common_word \<leftarrow> py_max_key (counter_get start_counts) (map fst start_counts);
           Some (indicators @ [Repetitive_openings most_common_word max_repeat])
         } else Some indicators)
      } else Some indicators)"

definition get_indicators :: "string \<Rightarrow> indicator list option" where
  "get_indicators text = do {
     let indicators = [];
     let text_lower = lower text;
     let words = split_ws text_lower;
     let indicators = check_explicit_patterns text_lower indicators;
     indicators \<leftarrow> check_buzzwords words indicators;
     indicators \<leftarrow> check_transitions words indicators;
     let sentences = sentence_list text;
     indicators \<leftarrow> check_structure_consistency sentences indicators;
     let paragraphs = paragraph_list text;
     indicators \<leftarrow> check_balanced_paragraphs paragraphs indicators;
     indicators \<leftarrow> check_repetitive_starts sentences indicators;
     let indicators = (if indicators = [] then indicators @ [No_strong_indicators]
                       else indicators);
     Some indicators
   }"

subsection \<open>Statistics helpers\<close>

definition avg_sentence_length :: "string \<Rightarrow> real option" where
  "avg_sentence_length text =
     (let sentences = sentence_list text
      in if sentences = [] then Some 0
         else do {
           let total_words = sum_list (map (\<lambda>s. length (split_ws s)) sentences);
           q \<leftarrow> truediv (real total_words) (real (length sentences));
           Some (py_round q 2)
         })"

definition unique_word_ratio :: "string \<Rightarrow> real option" where
  "unique_word_ratio text =
     (let words = findall_words (lower text)
      in if words = [] then Some 0
         else do {
           q \<leftarrow> truediv (real (card (set words))) (real (length words));
           Some (py_round q 2)
         })"

subsection \<open>\<^verbatim>\<open>analyze_text\<close>\<close>

datatype likelihood = Very_Low | Low | Medium | High

record metrics =
  pattern_score :: real
  vocabulary_score :: real
  structure_score :: real
  consistency_score :: real
  repetition_score :: real

record statistics =
  word_count :: nat
  sentence_count :: nat
  stat_avg_sentence_length :: real
  stat_unique_word_ratio :: real

record analysis =
  ai_probability :: real
  likelihood :: likelihood
  message :: string
  metrics :: metrics
  indicators :: "indicator list"
  statistics :: statistics

text \<open>The weighted average of lines 73 to 79.\<close>

definition weighted_average :: "real \<Rightarrow> real \<Rightarrow> real \<Rightarrow> real \<Rightarrow> real \<Rightarrow> real" where
  "weighted_average pattern vocabulary structure consistency repetition =
     pattern * 0.35 + vocabulary * 0.25 + structure * 0.20 + consistency * 0.15
       + repetition * 0.05"

text \<open>The confidence level of lines 82 to 93: the likelihood and its message.\<close>

definition confidence_level :: "real \<Rightarrow> likelihood \<times> string" where
  "confidence_level overall =
     (if overall \<ge> 0.55 then
        (High, ''This text shows strong indicators of being AI-generated'')
      else if overall \<ge> 0.35 then
        (Medium, ''This text shows moderate indicators of being AI-generated'')
      else if overall \<ge> 0.20 then
        (Low, ''This text shows some indicators of being AI-generated'')
      else
        (Very_Low, ''This text appears to be human-written''))"

text \<open>
  The result is \<open>Some (Inl error)\<close> for the dictionary with \<^verbatim>\<open>"success": False\<close>,
  \<open>Some (Inr result)\<close> for the one with \<^verbatim>\<open>"success": True\<close>, and \<open>None\<close> when the call
  raises.
\<close>

definition analyze_text :: "string \<Rightarrow> (string + analysis) option" where
  "analyze_text text =
     (if text = [] \<or> length (strip text) < 50 then
        Some (Inl ''Text too short for analysis (minimum 50 characters)'')
      else do {
        pattern \<leftarrow> check_ai_patterns text;
        structure \<leftarrow> analyze_structure text;
        vocabulary \<leftarrow> analyze_vocabulary text;
        consistency \<leftarrow> analyze_consistency text;
        let repetition = check_repetition text;
        let overall = weighted_average pattern vocabulary structure consistency repetition;
        let level = confidence_level overall;
        found \<leftarrow> get_indicators text;
        avg \<leftarrow> avg_sentence_length text;
        ratio \<leftarrow> unique_word_ratio text;
        Some (Inr \<lparr>
          ai_probability = py_round (overall * 100) 2,
          likelihood = fst level,
          message = snd level,
          metrics = \<lparr>
            pattern_score = py_round (pattern * 100) 2,
            vocabulary_score = py_round (vocabulary * 100) 2,
            structure_score = py_round (structure * 100) 2,
            consistency_score = py_round (consistency * 100) 2,
            repetition_score = py_round (repetition * 100) 2 \<rparr>,
          indicators = found,
          statistics = \<lparr>
            word_count = length (split_ws text),
            sentence_count = length (re_split text),
            stat_avg_sentence_length = avg,
            stat_unique_word_ratio = ratio \<rparr> \<rparr>)
      })"

subsection \<open>Notions of the specification\<close>

text \<open>
  The punctuation ratio in the words of the specification: the number of commas,
  semicolons and colons divided by the number of words, and 0 when there are no words.
\<close>

definition punctuation_ratio :: "string \<Rightarrow> real" where
  "punctuation_ratio text =
     (if split_ws text = [] then 0
      else real (count_list text CHR '','' + count_list text CHR '';'' + count_list text CHR '':'')
             / real (length (split_ws text)))"

text \<open>
  The transition contribution in the words of the specification: the density is the
  number of tokens in the transition lexicon over the number of tokens; a density of at
  least 0.08 contributes min(density * 3, 0.5), one of at least 0.05 a flat 0.2, and an
  empty word list contributes 0.
\<close>

definition transition_density :: "string \<Rightarrow> real" where
  "transition_density text =
     real (count_in_lexicon ai_transitions (split_ws (lower text)))
       / real (length (split_ws (lower text)))"

definition transition_contribution :: "string \<Rightarrow> real" where
  "transition_contribution text =
     (if split_ws (lower text) = [] then 0
      else if transition_density text \<ge> 0.08 then min (transition_density text * 3) 0.5
      else if transition_density text \<ge> 0.05 then 0.2
      else 0)"




section \<open>Properties\<close>

subsection \<open>No call raises: every analyzer and the reporter return\<close>

lemma truediv_Some: "b \<noteq> 0 \<Longrightarrow> truediv a b = Some (a / b)"
  by (simp add: truediv_def)

lemma math_sqrt_Some: "0 \<le> x \<Longrightarrow> math_sqrt x = Some (sqrt x)"
  by (simp add: math_sqrt_def)

lemma coeff_variation_Some:
  assumes "lengths \<noteq> []"
  shows "coeff_variation lengths =
     Some (let avg = real (sum_list lengths) / real (length lengths);
               var = (\<Sum>l\<leftarrow>lengths. (real l - avg) ^ 2) / real (length lengths)
           in if 0 < avg then sqrt var / avg else 1)"
proof -
  let ?n = "real (length lengths)"
  let ?avg = "real (sum_list lengths) / ?n"
  let ?var = "(\<Sum>l\<leftarrow>lengths. (real l - ?avg) ^ 2) / ?n"
  have n: "?n \<noteq> 0" using assms by simp
  have "0 \<le> (\<Sum>l\<leftarrow>lengths. (real l - ?avg) ^ 2)"
    by (rule sum_list_nonneg) auto
  then have var: "0 \<le> ?var" by simp
  have 1: "truediv (real (sum_list lengths)) ?n = Some ?avg"
    by (rule truediv_Some [OF n])
  have 2: "truediv (\<Sum>l\<leftarrow>lengths. (real l - ?avg) ^ 2) ?n = Some ?var"
    by (rule truediv_Some [OF n])
  have 3: "math_sqrt ?var = Some (sqrt ?var)"
    by (rule math_sqrt_Some [OF var])
  have 4: "0 < ?avg \<Longrightarrow> truediv (sqrt ?var) ?avg = Some (sqrt ?var / ?avg)"
    by (rule truediv_Some) linarith
  have "coeff_variation lengths = (if 0 < ?avg then truediv (sqrt ?var) ?avg else Some 1)"
    unfolding coeff_variation_def by (simp only: 1 2 3 bind.bind_lunit) simp
  also have "\<dots> = Some (if 0 < ?avg then sqrt ?var / ?avg else 1)"
  proof (cases "0 < ?avg")
    case True
    then show ?thesis using 4 by (simp only: if_True)
  next
    case False
    then show ?thesis by (simp only: if_False)
  qed
  finally show ?thesis by (simp only: Let_def)
qed

lemma coeff_variation_total:
  "lengths \<noteq> [] \<Longrightarrow> \<exists>cv. coeff_variation lengths = Some cv"
  by (simp add: coeff_variation_Some)

lemma py_max_Some: "xs \<noteq> [] \<Longrightarrow> \<exists>m. py_max xs = Some m"
  by (cases xs) (simp_all add: py_max_def)

lemma py_min_Some: "xs \<noteq> [] \<Longrightarrow> \<exists>m. py_min xs = Some m"
  by (cases xs) (simp_all add: py_min_def)

lemma py_max_key_Some: "xs \<noteq> [] \<Longrightarrow> \<exists>m. py_max_key f xs = Some m"
  by (cases xs) (simp_all add: py_max_key_def)

lemma counter_eq_Nil: "counter xs = [] \<longleftrightarrow> xs = []"
  by (simp add: counter_def)

lemma check_explicit_patterns_append:
  "check_explicit_patterns t ind = ind @ check_explicit_patterns t []"
  by (simp add: check_explicit_patterns_def Let_def)

lemma self_reference_reported:
  "Explicit_self_reference \<in> set (check_explicit_patterns t []) \<longleftrightarrow>
     re_search False indicator_self_reference t"
  by (simp add: check_explicit_patterns_def Let_def)

lemma no_openings_in_explicit:
  "Repetitive_openings w n \<notin> set (check_explicit_patterns t [])"
  by (simp add: check_explicit_patterns_def Let_def)

lemma check_buzzwords_Some:
  "\<exists>extra. check_buzzwords words ind = Some (ind @ extra) \<and>
     (extra = [] \<or> (\<exists>n. extra = [High_buzzwords n]))"
proof (cases "words = []")
  case True
  then show ?thesis by (simp add: check_buzzwords_def)
next
  case False
  then have "real (length words) \<noteq> 0" by simp
  then show ?thesis using False by (simp add: check_buzzwords_def truediv_Some Let_def)
qed

lemma check_transitions_Some:
  "\<exists>extra. check_transitions words ind = Some (ind @ extra) \<and>
     (extra = [] \<or> (\<exists>p. extra = [Excessive_transitions p]))"
proof (cases "words = []")
  case True
  then show ?thesis by (simp add: check_transitions_def)
next
  case False
  then have "real (length words) \<noteq> 0" by simp
  then show ?thesis using False by (simp add: check_transitions_def truediv_Some Let_def)
qed

lemma check_structure_consistency_Some:
  "\<exists>extra. check_structure_consistency sentences ind = Some (ind @ extra) \<and>
     (extra = [] \<or> extra = [Consistent_structure])"
proof (cases "length sentences > 2")
  case True
  then have "map (\<lambda>s. length (split_ws s)) sentences \<noteq> []" by auto
  then obtain cv where "coeff_variation (map (\<lambda>s. length (split_ws s)) sentences) = Some cv"
    using coeff_variation_total by blast
  then show ?thesis using True by (simp add: check_structure_consistency_def)
next
  case False
  then show ?thesis by (simp add: check_structure_consistency_def)
qed

lemma check_balanced_paragraphs_Some:
  "\<exists>extra. check_balanced_paragraphs paragraphs ind = Some (ind @ extra) \<and>
     (extra = [] \<or> extra = [Balanced_paragraphs])"
proof (cases "length paragraphs > 2")
  case True
  then have ne: "map (\<lambda>p. length (split_ws p)) paragraphs \<noteq> []" by auto
  obtain a where a: "py_max (map (\<lambda>p. length (split_ws p)) paragraphs) = Some a"
    using py_max_Some [OF ne] by blast
  obtain b where b: "py_min (map (\<lambda>p. length (split_ws p)) paragraphs) = Some b"
    using py_min_Some [OF ne] by blast
  show ?thesis using True a b by (simp add: check_balanced_paragraphs_def)
next
  case False
  then show ?thesis by (simp add: check_balanced_paragraphs_def)
qed

lemma check_repetitive_starts_few:
  "length sentences \<le> 3 \<Longrightarrow> check_repetitive_starts sentences ind = Some ind"
  by (simp add: check_repetitive_starts_def)

lemma check_repetitive_starts_Some:
  "\<exists>extra. (\<forall>ind. check_repetitive_starts sentences ind = Some (ind @ extra)) \<and>
     (extra = [] \<or> (\<exists>w n. extra = [Repetitive_openings w n]))"
proof (cases "length sentences > 3")
  case True
  let ?counts = "counter (sentence_starts sentences)"
  from True have "sentence_starts sentences \<noteq> []" by (auto simp: sentence_starts_def)
  then have ne: "?counts \<noteq> []" by (simp add: counter_eq_Nil)
  then have "counter_values ?counts \<noteq> []"
    by (simp add: counter_values_def)
  then obtain m where m: "py_max (counter_values ?counts) = Some m"
    using py_max_Some [of "counter_values ?counts"] by blast
  from ne have "map fst ?counts \<noteq> []" by simp
  then obtain k where k: "py_max_key (counter_get ?counts) (map fst ?counts) = Some k"
    using py_max_key_Some [of "map fst ?counts" "counter_get ?counts"] by blast
  have "check_repetitive_starts sentences ind =
      Some (ind @ (if m > 2 then [Repetitive_openings k m] else []))" for ind
    unfolding check_repetitive_starts_def Let_def
    by (simp only: True if_True m k bind.bind_lunit split: if_split) simp
  then show ?thesis
    by (intro exI [of _ "if m > 2 then [Repetitive_openings k m] else []"]) simp
next
  case False
  then have "check_repetitive_starts sentences ind = Some (ind @ [])" for ind
    by (simp add: check_repetitive_starts_def)
  then show ?thesis by (intro exI [of _ "[]"]) simp
qed

lemma avg_sentence_length_total: "\<exists>a. avg_sentence_length text = Some a"
proof (cases "sentence_list text = []")
  case True
  then show ?thesis by (simp add: avg_sentence_length_def)
next
  case False
  then have "real (length (sentence_list text)) \<noteq> 0" by simp
  then show ?thesis using False by (simp add: avg_sentence_length_def Let_def truediv_Some)
qed

lemma unique_word_ratio_total: "\<exists>a. unique_word_ratio text = Some a"
proof (cases "findall_words (lower text) = []")
  case True
  then show ?thesis by (simp add: unique_word_ratio_def)
next
  case False
  then have "real (length (findall_words (lower text))) \<noteq> 0" by simp
  then show ?thesis using False by (simp add: unique_word_ratio_def Let_def truediv_Some)
qed

lemma get_indicators_shape:
  "\<exists>rest tail. get_indicators text =
       Some (let l = check_explicit_patterns (lower text) [] @ rest @ tail
             in if l = [] then [No_strong_indicators] else l)
     \<and> Explicit_self_reference \<notin> set rest
     \<and> (\<forall>w n. Repetitive_openings w n \<notin> set rest)
     \<and> check_repetitive_starts (sentence_list text) [] = Some tail"
proof -
  let ?i3 = "check_explicit_patterns (lower text) []"
  let ?words = "split_ws (lower text)"
  obtain e4 where e4: "check_buzzwords ?words ?i3 = Some (?i3 @ e4)"
      "e4 = [] \<or> (\<exists>n. e4 = [High_buzzwords n])"
    using check_buzzwords_Some [of ?words ?i3] by blast
  obtain e5 where e5: "check_transitions ?words (?i3 @ e4) = Some ((?i3 @ e4) @ e5)"
      "e5 = [] \<or> (\<exists>p. e5 = [Excessive_transitions p])"
    using check_transitions_Some [of ?words "?i3 @ e4"] by blast
  obtain e6 where e6: "check_structure_consistency (sentence_list text) ((?i3 @ e4) @ e5)
        = Some (((?i3 @ e4) @ e5) @ e6)"
      "e6 = [] \<or> e6 = [Consistent_structure]"
    using check_structure_consistency_Some [of "sentence_list text" "(?i3 @ e4) @ e5"] by blast
  obtain e7 where e7: "check_balanced_paragraphs (paragraph_list text) (((?i3 @ e4) @ e5) @ e6)
        = Some ((((?i3 @ e4) @ e5) @ e6) @ e7)"
      "e7 = [] \<or> e7 = [Balanced_paragraphs]"
    using check_balanced_paragraphs_Some [of "paragraph_list text" "((?i3 @ e4) @ e5) @ e6"]
    by blast
  obtain e8 where e8: "\<And>ind. check_repetitive_starts (sentence_list text) ind = Some (ind @ e8)"
    using check_repetitive_starts_Some [of "sentence_list text"] by blast
  have "get_indicators text =
       Some (let l = ?i3 @ (e4 @ e5 @ e6 @ e7) @ e8
             in if l = [] then [No_strong_indicators] else l)"
    unfolding get_indicators_def Let_def
    by (simp only: e4(1) e5(1) e6(1) e7(1) e8 bind.bind_lunit) simp
  moreover have "Explicit_self_reference \<notin> set (e4 @ e5 @ e6 @ e7)"
    using e4(2) e5(2) e6(2) e7(2) by auto
  moreover have "\<forall>w n. Repetitive_openings w n \<notin> set (e4 @ e5 @ e6 @ e7)"
    using e4(2) e5(2) e6(2) e7(2) by auto
  moreover have "check_repetitive_starts (sentence_list text) [] = Some e8"
    using e8 [of "[]"] by simp
  ultimately show ?thesis by blast
qed

lemma get_indicators_total: "\<exists>found. get_indicators text = Some found"
  using get_indicators_shape [of "text"] by blast

lemma check_ai_patterns_total: "\<exists>v. check_ai_patterns text = Some v \<and> v \<le> 1"
proof (cases "split_ws (lower text) = []")
  case True
  then show ?thesis by (simp add: check_ai_patterns_def Let_def)
next
  case False
  then have "real (length (split_ws (lower text))) \<noteq> 0" by simp
  then show ?thesis
    using False by (simp add: check_ai_patterns_def Let_def truediv_Some)
qed

lemma analyze_consistency_total: "\<exists>v. analyze_consistency text = Some v \<and> v \<le> 1"
proof -
  let ?wc = "length (split_ws text)"
  let ?pl = "map (\<lambda>p. length (split_ws p)) (paragraph_list text)"
  have r: "\<exists>r. (if ?wc > 0 then truediv (real (count_list text CHR '','' + count_list text CHR '';'' + count_list text CHR '':'')) (real ?wc) else Some 0) = Some r"
    by (simp add: truediv_Some)
  have p: "length (paragraph_list text) > 1 \<Longrightarrow> \<exists>cv. coeff_variation ?pl = Some cv"
    by (rule coeff_variation_total) auto
  show ?thesis
  proof (cases "length (paragraph_list text) > 1")
    case True
    then obtain cv where "coeff_variation ?pl = Some cv" using p by blast
    then show ?thesis using True r
      by (auto simp add: analyze_consistency_def Let_def truediv_Some)
  next
    case False
    then show ?thesis using r
      by (auto simp add: analyze_consistency_def Let_def truediv_Some)
  qed
qed

lemma check_repetition_le: "check_repetition text \<le> 0.8"
  by (simp add: check_repetition_def Let_def min_def)

lemma analyze_structure_total: "\<exists>v. analyze_structure text = Some v \<and> v \<le> 1"
proof (cases "length (sentence_list text) < 2")
  case True
  then have "analyze_structure text = Some 0.2" by (simp add: analyze_structure_def Let_def)
  then show ?thesis by (intro exI [of _ "0.2"]) simp
next
  case False
  let ?lengths = "map (\<lambda>s. length (split_ws s)) (sentence_list text)"
  from False have ne: "?lengths \<noteq> []" by auto
  obtain cv where cv: "coeff_variation ?lengths = Some cv"
    using coeff_variation_total [OF ne] by blast
  from False have "real (length ?lengths) \<noteq> 0" by auto
  note d = truediv_Some [OF this]
  show ?thesis
    unfolding analyze_structure_def Let_def
    apply (simp only: False if_False cv d bind.bind_lunit)
    apply (rule exI, rule conjI, rule refl)
    apply (rule min.coboundedI2)
    apply simp
    done
qed

lemma analyze_vocabulary_total: "\<exists>v. analyze_vocabulary text = Some v \<and> v \<le> 1"
proof (cases "length (findall_words (lower text)) < 10")
  case True
  then have "analyze_vocabulary text = Some 0.2" by (simp add: analyze_vocabulary_def Let_def)
  then show ?thesis by (intro exI [of _ "0.2"]) simp
next
  case False
  then have "real (length (findall_words (lower text))) \<noteq> 0" by auto
  note d = truediv_Some [OF this]
  show ?thesis
    unfolding analyze_vocabulary_def Let_def
    apply (simp only: False if_False d bind.bind_lunit)
    apply (rule exI, rule conjI, rule refl)
    apply (rule min.coboundedI2)
    apply simp
    done
qed

subsection \<open>The length gate\<close>

lemma strip_Nil: "strip [] = []"
  by (simp add: strip_def strip_chars_def)

lemma analyze_text_short:
  "length (strip text) < 50 \<Longrightarrow>
     analyze_text text = Some (Inl ''Text too short for analysis (minimum 50 characters)'')"
  by (simp add: analyze_text_def)

lemma analyze_text_success:
  assumes "50 \<le> length (strip text)"
  shows "\<exists>pattern structure vocabulary consistency found avg ratio.
     check_ai_patterns text = Some pattern \<and>
     analyze_structure text = Some structure \<and>
     analyze_vocabulary text = Some vocabulary \<and>
     analyze_consistency text = Some consistency \<and>
     get_indicators text = Some found \<and>
     avg_sentence_length text = Some avg \<and>
     unique_word_ratio text = Some ratio \<and>
     analyze_text text = Some (Inr \<lparr>
       ai_probability = py_round (weighted_average pattern vocabulary structure consistency
         (check_repetition text) * 100) 2,
       likelihood = fst (confidence_level (weighted_average pattern vocabulary structure
         consistency (check_repetition text))),
       message = snd (confidence_level (weighted_average pattern vocabulary structure
         consistency (check_repetition text))),
       metrics = \<lparr>
         pattern_score = py_round (pattern * 100) 2,
         vocabulary_score = py_round (vocabulary * 100) 2,
         structure_score = py_round (structure * 100) 2,
         consistency_score = py_round (consistency * 100) 2,
         repetition_score = py_round (check_repetition text * 100) 2 \<rparr>,
       indicators = found,
       statistics = \<lparr>
         word_count = length (split_ws text),
         sentence_count = length (re_split text),
         stat_avg_sentence_length = avg,
         stat_unique_word_ratio = ratio \<rparr> \<rparr>)"
proof -
  from assms have gate: "\<not> (text = [] \<or> length (strip text) < 50)"
    by (auto simp: strip_Nil)
  obtain p where p: "check_ai_patterns text = Some p"
    using check_ai_patterns_total [of "text"] by blast
  obtain s where s: "analyze_structure text = Some s"
    using analyze_structure_total [of "text"] by blast
  obtain v where v: "analyze_vocabulary text = Some v"
    using analyze_vocabulary_total [of "text"] by blast
  obtain c where c: "analyze_consistency text = Some c"
    using analyze_consistency_total [of "text"] by blast
  obtain f where f: "get_indicators text = Some f"
    using get_indicators_total [of "text"] by blast
  obtain a where a: "avg_sentence_length text = Some a"
    using avg_sentence_length_total [of "text"] by blast
  obtain r where r: "unique_word_ratio text = Some r"
    using unique_word_ratio_total [of "text"] by blast
  show ?thesis
    unfolding analyze_text_def Let_def
    by (simp only: gate if_False p s v c f a r bind.bind_lunit) simp
qed

text \<open>
  Claim C1. The call returns the "too short" dictionary, with its fixed message and no
  scores, exactly when the stripped text has fewer than 50 characters; when it has at
  least 50, the call returns a full result and no analyzer raises.
\<close>

theorem length_gate:
  "(length (strip text) < 50 \<longrightarrow>
      analyze_text text = Some (Inl ''Text too short for analysis (minimum 50 characters)''))
   \<and> (50 \<le> length (strip text) \<longrightarrow> (\<exists>result. analyze_text text = Some (Inr result)))
   \<and> ((\<exists>error. analyze_text text = Some (Inl error)) \<longleftrightarrow> length (strip text) < 50)"
proof (cases "length (strip text) < 50")
  case True
  then show ?thesis using analyze_text_short [of "text"] by simp
next
  case False
  then have "50 \<le> length (strip text)" by simp
  then obtain result where "analyze_text text = Some (Inr result)"
    using analyze_text_success [of "text"] by blast
  then show ?thesis using False by simp
qed

theorem length_gate_witness:
  "length (strip ''Hi there!'') < 50
   \<and> analyze_text ''Hi there!'' =
       Some (Inl ''Text too short for analysis (minimum 50 characters)'')
   \<and> 50 \<le> length (strip ''aaaaaaaaaaaaaaaaaaaaaaaaaaaaaaaaaaaaaaaaaaaaaaaaaaaaaaaaaaaa'')
   \<and> (\<exists>result. analyze_text ''aaaaaaaaaaaaaaaaaaaaaaaaaaaaaaaaaaaaaaaaaaaaaaaaaaaaaaaaaaaa''
         = Some (Inr result))"
proof -
  have short: "length (strip ''Hi there!'') < 50"
    by code_simp
  have long: "50 \<le> length (strip ''aaaaaaaaaaaaaaaaaaaaaaaaaaaaaaaaaaaaaaaaaaaaaaaaaaaaaaaaaaaa'')"
    by code_simp
  show ?thesis
    using short long length_gate [of "''Hi there!''"]
      length_gate [of "''aaaaaaaaaaaaaaaaaaaaaaaaaaaaaaaaaaaaaaaaaaaaaaaaaaaaaaaaaaaa''"]
    by blast
qed

subsection \<open>Rounding is monotone; the cap on the repetition score\<close>

lemma round_half_even_le: "x \<le> of_int k \<Longrightarrow> round_half_even x \<le> k"
proof -
  assume le: "x \<le> of_int k"
  then have fl: "\<lfloor>x\<rfloor> \<le> k" by (simp add: floor_le_iff)
  show ?thesis
  proof (cases "\<lfloor>x\<rfloor> = k")
    case True
    then have "x - of_int \<lfloor>x\<rfloor> \<le> 0" using le by simp
    then show ?thesis using True by (simp add: round_half_even_def Let_def)
  next
    case False
    then have "\<lfloor>x\<rfloor> + 1 \<le> k" using fl by simp
    then show ?thesis by (simp add: round_half_even_def Let_def)
  qed
qed

lemma round_half_even_ge: "of_int k \<le> x \<Longrightarrow> k \<le> round_half_even x"
proof -
  assume "of_int k \<le> x"
  then have "k \<le> \<lfloor>x\<rfloor>" by (simp add: le_floor_iff)
  then show ?thesis by (simp add: round_half_even_def Let_def)
qed

lemma py_round_le: "x * 10 ^ n \<le> of_int k \<Longrightarrow> py_round x n \<le> of_int k / 10 ^ n"
  using round_half_even_le [of "x * 10 ^ n" k]
  by (simp add: py_round_def divide_right_mono)

lemma py_round_ge: "of_int k \<le> x * 10 ^ n \<Longrightarrow> of_int k / 10 ^ n \<le> py_round x n"
  using round_half_even_ge [of k "x * 10 ^ n"]
  by (simp add: py_round_def divide_right_mono)

lemma weighted_average_le:
  "p \<le> 1 \<Longrightarrow> v \<le> 1 \<Longrightarrow> s \<le> 1 \<Longrightarrow> c \<le> 1 \<Longrightarrow> r \<le> 0.8 \<Longrightarrow>
     weighted_average p v s c r \<le> 0.99"
  by (simp add: weighted_average_def)

text \<open>
  Claim C9. The repetition score is at most 0.8, so for a text that passes the gate the
  reported repetition metric is at most 80 and the reported probability is at most 99: a
  reported probability of 100 cannot occur.
\<close>

theorem repetition_cap:
  assumes "50 \<le> length (strip text)"
  shows "check_repetition text \<le> 0.8 \<and>
    (\<exists>result. analyze_text text = Some (Inr result) \<and>
       repetition_score (metrics result) \<le> 80 \<and>
       ai_probability result \<le> 99 \<and>
       ai_probability result \<noteq> 100)"
proof -
  obtain p s v c f a r where *:
    "check_ai_patterns text = Some p" "analyze_structure text = Some s"
    "analyze_vocabulary text = Some v" "analyze_consistency text = Some c"
    "analyze_text text = Some (Inr \<lparr>
       ai_probability = py_round (weighted_average p v s c (check_repetition text) * 100) 2,
       likelihood = fst (confidence_level (weighted_average p v s c (check_repetition text))),
       message = snd (confidence_level (weighted_average p v s c (check_repetition text))),
       metrics = \<lparr>
         pattern_score = py_round (p * 100) 2,
         vocabulary_score = py_round (v * 100) 2,
         structure_score = py_round (s * 100) 2,
         consistency_score = py_round (c * 100) 2,
         repetition_score = py_round (check_repetition text * 100) 2 \<rparr>,
       indicators = f,
       statistics = \<lparr>
         word_count = length (split_ws text),
         sentence_count = length (re_split text),
         stat_avg_sentence_length = a,
         stat_unique_word_ratio = r \<rparr> \<rparr>)"
    using analyze_text_success [OF assms] by blast
  have rep: "check_repetition text \<le> 0.8"
    by (rule check_repetition_le)
  have "p \<le> 1" using *(1) check_ai_patterns_total [of "text"] by auto
  moreover have "v \<le> 1" using *(3) analyze_vocabulary_total [of "text"] by auto
  moreover have "s \<le> 1" using *(2) analyze_structure_total [of "text"] by auto
  moreover have "c \<le> 1" using *(4) analyze_consistency_total [of "text"] by auto
  ultimately have overall: "weighted_average p v s c (check_repetition text) \<le> 0.99"
    using rep by (rule weighted_average_le)
  have "check_repetition text * 100 * 10 ^ 2 \<le> of_int 8000"
    using rep by simp
  then have m: "py_round (check_repetition text * 100) 2 \<le> 80"
    using py_round_le [of "check_repetition text * 100" 2 8000] by simp
  have "weighted_average p v s c (check_repetition text) * 100 * 10 ^ 2 \<le> of_int 9900"
    using overall by simp
  then have q: "py_round (weighted_average p v s c (check_repetition text) * 100) 2 \<le> 99"
    using py_round_le [of "weighted_average p v s c (check_repetition text) * 100" 2 9900]
    by simp
  show ?thesis
    apply (rule conjI)
     apply (rule rep)
    apply (rule exI, rule conjI, rule *(5))
    using m q apply simp
    done
qed

theorem repetition_cap_witness:
  "50 \<le> length (strip ''aaaaaaaaaaaaaaaaaaaaaaaaaaaaaaaaaaaaaaaaaaaaaaaaaaaaaaaaaaaa'') \<and>
   check_repetition ''aaaaaaaaaaaaaaaaaaaaaaaaaaaaaaaaaaaaaaaaaaaaaaaaaaaaaaaaaaaa'' \<le> 0.8 \<and>
   (\<exists>result.
      analyze_text ''aaaaaaaaaaaaaaaaaaaaaaaaaaaaaaaaaaaaaaaaaaaaaaaaaaaaaaaaaaaa''
        = Some (Inr result) \<and>
      repetition_score (metrics result) \<le> 80 \<and>
      ai_probability result \<le> 99 \<and>
      ai_probability result \<noteq> 100)"
proof -
  have gate: "50 \<le> length (strip ''aaaaaaaaaaaaaaaaaaaaaaaaaaaaaaaaaaaaaaaaaaaaaaaaaaaaaaaaaaaa'')"
    by code_simp
  show ?thesis
    using gate repetition_cap [OF gate] by blast
qed

subsection \<open>The consistency analyzer\<close>

lemma punctuation_ratio_Some:
  "(if length (split_ws text) > 0
    then truediv (real (count_list text CHR '','' + count_list text CHR '';''
                    + count_list text CHR '':'')) (real (length (split_ws text)))
    else Some 0) = Some (punctuation_ratio text)"
  by (simp add: punctuation_ratio_def truediv_def)

text \<open>
  Claim C7. The consistency score is the punctuation bonus plus the paragraph part, capped
  at one. The bonus is 0.5 when the punctuation ratio lies in [0.08, 0.15]; otherwise 0.25
  when it lies in [0.05, 0.18]; otherwise 0. It is never the sum of both. The paragraph
  part is 0, 0.3 or 0.5, and 0 when the text has at most one paragraph.
\<close>

theorem punctuation_bonus_once:
  "\<exists>bonus paragraph_part.
     analyze_consistency text = Some (min (bonus + paragraph_part) 1) \<and>
     bonus =
       (if 0.08 \<le> punctuation_ratio text \<and> punctuation_ratio text \<le> 0.15 then 0.5
        else if 0.05 \<le> punctuation_ratio text \<and> punctuation_ratio text \<le> 0.18 then 0.25
        else 0) \<and>
     bonus \<noteq> 0.5 + 0.25 \<and>
     (paragraph_part = 0 \<or> paragraph_part = 0.3 \<or> paragraph_part = 0.5) \<and>
     (length (paragraph_list text) \<le> 1 \<longrightarrow> paragraph_part = 0)"
proof -
  define bonus :: real where "bonus =
       (if 0.08 \<le> punctuation_ratio text \<and> punctuation_ratio text \<le> 0.15 then 0.5
        else if 0.05 \<le> punctuation_ratio text \<and> punctuation_ratio text \<le> 0.18 then 0.25
        else 0)"
  have ne: "bonus \<noteq> 0.5 + 0.25" by (simp add: bonus_def)
  let ?lengths = "map (\<lambda>p. length (split_ws p)) (paragraph_list text)"
  have score: "(if 0.08 \<le> punctuation_ratio text \<and> punctuation_ratio text \<le> 0.15 then 0 + 0.5
        else if 0.05 \<le> punctuation_ratio text \<and> punctuation_ratio text \<le> 0.18 then 0 + 0.25
        else 0) = bonus"
    by (simp add: bonus_def)
  show ?thesis
  proof (cases "length (paragraph_list text) > 1")
    case True
    then have "?lengths \<noteq> []" by auto
    then obtain cv where cv: "coeff_variation ?lengths = Some cv"
      using coeff_variation_total [of ?lengths] by blast
    define part :: real where
      "part = (if cv < 0.25 then 0.5 else if cv < 0.40 then 0.3 else 0)"
    have "analyze_consistency text =
        Some (min (if cv < 0.25 then bonus + 0.5 else if cv < 0.40 then bonus + 0.3 else bonus) 1.0)"
      unfolding analyze_consistency_def Let_def
      by (simp only: punctuation_ratio_Some bind.bind_lunit score True if_True cv)
    then have "analyze_consistency text = Some (min (bonus + part) 1)"
      by (simp add: part_def)
    moreover have "part = 0 \<or> part = 0.3 \<or> part = 0.5"
      by (simp add: part_def)
    ultimately show ?thesis
      using ne True bonus_def by (intro exI [of _ bonus] exI [of _ part]) simp
  next
    case False
    have "analyze_consistency text = Some (min bonus 1.0)"
      unfolding analyze_consistency_def Let_def
      by (simp only: punctuation_ratio_Some bind.bind_lunit score False if_False)
    then have "analyze_consistency text = Some (min (bonus + 0) 1)"
      by simp
    then show ?thesis
      using ne bonus_def by (intro exI [of _ bonus] exI [of _ 0]) simp
  qed
qed

theorem punctuation_bonus_once_witness:
  "length (paragraph_list ''one, two three four five six seven eight nine ten'') \<le> 1 \<and>
   analyze_consistency ''one, two three four five six seven eight nine ten'' = Some 0.5"
proof -
  have one: "length (paragraph_list ''one, two three four five six seven eight nine ten'') \<le> 1"
    by code_simp
  have ratio: "punctuation_ratio ''one, two three four five six seven eight nine ten'' = 0.1"
    by code_simp
  show ?thesis
    using one punctuation_bonus_once [of "''one, two three four five six seven eight nine ten''"]
    by (auto simp add: ratio)
qed

subsection \<open>The structure analyzer on uniform sentences\<close>

lemma coeff_variation_uniform:
  "coeff_variation [15, 15, 15, 15, 15] = Some 0"
  by (simp add: coeff_variation_Some)

lemma py_round_100: "py_round 100 2 = 100"
  by (simp add: py_round_def round_half_even_def)

lemma analyze_structure_uniform:
  assumes "map (\<lambda>s. length (split_ws s)) (sentence_list text) = [15, 15, 15, 15, 15]"
  shows "analyze_structure text = Some 1"
proof -
  have "length (map (\<lambda>s. length (split_ws s)) (sentence_list text)) = 5"
    by (simp only: assms) simp
  then have two: "\<not> length (sentence_list text) < 2" by simp
  have n: "real (length [15::nat, 15, 15, 15, 15]) \<noteq> 0" by simp
  have m: "length (filter (\<lambda>l. 12 \<le> l \<and> l \<le> 20) [15::nat, 15, 15, 15, 15]) = 5" by simp
  show ?thesis
    unfolding analyze_structure_def Let_def
    by (simp only: two if_False assms coeff_variation_uniform bind.bind_lunit
        truediv_Some [OF n] m) simp
qed

text \<open>
  The words of the sentences are disjoint runs of characters of the stripped text, so
  their number is at most its length.
\<close>

lemma filter_not_dropWhile:
  "filter (\<lambda>c. \<not> P c) (dropWhile P s) = filter (\<lambda>c. \<not> P c) s"
  by (induction s) simp_all

lemma filter_not_strip_chars:
  "filter (\<lambda>c. \<not> P c) (strip_chars P s) = filter (\<lambda>c. \<not> P c) s"
proof -
  have "filter (\<lambda>c. \<not> P c) (strip_chars P s)
      = rev (filter (\<lambda>c. \<not> P c) (dropWhile P (rev (dropWhile P s))))"
    by (simp add: strip_chars_def rev_filter)
  also have "\<dots> = rev (filter (\<lambda>c. \<not> P c) (rev (dropWhile P s)))"
    by (simp only: filter_not_dropWhile)
  also have "\<dots> = filter (\<lambda>c. \<not> P c) (dropWhile P s)"
    by (simp add: rev_filter)
  finally show ?thesis by (simp only: filter_not_dropWhile)
qed

lemma filter_takeWhile_same: "filter P (takeWhile P xs) = takeWhile P xs"
  by (induction xs) simp_all

lemma length_filter_split:
  "length (filter F s) = length (filter F (takeWhile Q s)) + length (filter F (dropWhile Q s))"
  by (induction s) simp_all

lemma length_fields_le:
  "length (runs_between sep s) \<le> length (filter (\<lambda>c. \<not> sep c) s)"
proof (induction sep s rule: runs_between.induct)
  case (1 sep s)
  let ?s' = "dropWhile sep s"
  let ?w = "takeWhile (\<lambda>c. \<not> sep c) ?s'"
  let ?rest = "dropWhile (\<lambda>c. \<not> sep c) ?s'"
  show ?case
  proof (cases "?s' = []")
    case True
    then have "runs_between sep s = []"
      by (simp only: runs_between.simps [of sep s] Let_def simp_thms if_True)
    then show ?thesis by simp
  next
    case False
    then have hd: "\<not> sep (hd ?s')" by (rule hd_dropWhile_not)
    then have w: "?w \<noteq> []" using False by (cases ?s') simp_all
    have IH: "length (runs_between sep ?rest) \<le> length (filter (\<lambda>c. \<not> sep c) ?rest)"
      using "1.IH" [OF refl False] .
    have "filter (\<lambda>c. \<not> sep c) s = filter (\<lambda>c. \<not> sep c) ?s'"
      by (simp only: filter_not_dropWhile)
    also have "\<dots> = filter (\<lambda>c. \<not> sep c) (?w @ ?rest)"
      by (simp only: takeWhile_dropWhile_id)
    also have "\<dots> = ?w @ filter (\<lambda>c. \<not> sep c) ?rest"
      by (simp only: filter_append filter_takeWhile_same)
    finally have "length (filter (\<lambda>c. \<not> sep c) s)
        = length ?w + length (filter (\<lambda>c. \<not> sep c) ?rest)"
      by simp
    moreover have "1 \<le> length ?w" using w by (cases ?w) simp_all
    moreover have "runs_between sep s = ?w # runs_between sep ?rest"
      using False by (simp only: runs_between.simps [of sep s] Let_def if_False)
    ultimately show ?thesis using IH by simp
  qed
qed

lemma sum_pieces_le:
  "(\<Sum>p\<leftarrow>re_split s. length (filter (\<lambda>c. \<not> isspace c) p))
     \<le> length (filter (\<lambda>c. \<not> isspace c) s)"
proof (induction s rule: re_split.induct)
  case (1 s)
  let ?piece = "takeWhile (\<lambda>c. \<not> is_terminator c) s"
  let ?rest = "dropWhile (\<lambda>c. \<not> is_terminator c) s"
  let ?next = "dropWhile is_terminator ?rest"
  let ?ns = "\<lambda>p. length (filter (\<lambda>c. \<not> isspace c) p)"
  have split: "?ns s = ?ns ?piece + ?ns ?rest"
    by (rule length_filter_split)
  show ?case
  proof (cases "?rest = []")
    case True
    then have "re_split s = [?piece]"
      by (simp only: re_split.simps [of s] Let_def simp_thms if_True)
    then show ?thesis using split by simp
  next
    case False
    then have r: "re_split s = ?piece # re_split ?next"
      by (simp only: re_split.simps [of s] Let_def if_False)
    have IH: "(\<Sum>p\<leftarrow>re_split ?next. ?ns p) \<le> ?ns ?next"
      using "1.IH" [OF refl refl False] .
    have "?ns ?rest = ?ns (takeWhile is_terminator ?rest) + ?ns ?next"
      by (rule length_filter_split)
    then have "?ns ?next \<le> ?ns ?rest" by linarith
    then show ?thesis using IH split by (simp add: r)
  qed
qed

lemma sum_filter_le:
  fixes f :: "'a \<Rightarrow> nat"
  shows "(\<Sum>x\<leftarrow>filter P xs. f x) \<le> (\<Sum>x\<leftarrow>xs. f x)"
  by (induction xs) simp_all

lemma total_words_le_length:
  "sum_list (map (\<lambda>s. length (split_ws s)) (sentence_list text)) \<le> length (strip text)"
proof -
  let ?ns = "\<lambda>p. length (filter (\<lambda>c. \<not> isspace c) p)"
  have word: "length (split_ws (strip p)) \<le> ?ns p" for p
    using length_fields_le [of isspace "strip p"]
    by (simp add: split_ws_def strip_def filter_not_strip_chars)
  have "sum_list (map (\<lambda>s. length (split_ws s)) (sentence_list text))
      = (\<Sum>p\<leftarrow>filter (\<lambda>s. strip s \<noteq> []) (re_split text). length (split_ws (strip p)))"
    by (simp add: sentence_list_def comp_def)
  also have "\<dots> \<le> (\<Sum>p\<leftarrow>filter (\<lambda>s. strip s \<noteq> []) (re_split text). ?ns p)"
    by (rule sum_list_mono) (rule word)
  also have "\<dots> \<le> (\<Sum>p\<leftarrow>re_split text. ?ns p)"
    by (rule sum_filter_le)
  also have "\<dots> \<le> ?ns text"
    by (rule sum_pieces_le)
  also have "\<dots> = ?ns (strip text)"
    by (simp add: strip_def filter_not_strip_chars)
  also have "\<dots> \<le> length (strip text)"
    by simp
  finally show ?thesis .
qed

text \<open>
  Claim C8. When the text splits into five sentences of exactly 15 words each (the list
  of the sentences' word counts is five times 15), it passes the length gate, the
  coefficient of variation is 0 (the band below 0.30, worth 0.6) and every sentence has a
  medium length (ratio 1, worth 0.4), so the structure score is 1 and the structure metric
  of the result is 100.
\<close>

theorem uniform_sentences_structure:
  assumes "map (\<lambda>s. length (split_ws s)) (sentence_list text) = [15, 15, 15, 15, 15]"
  shows "50 \<le> length (strip text) \<and>
    analyze_structure text = Some (0.6 + 0.4) \<and>
    (\<exists>result. analyze_text text = Some (Inr result) \<and>
       structure_score (metrics result) = 100)"
proof -
  have "sum_list (map (\<lambda>s. length (split_ws s)) (sentence_list text)) = 75"
    by (simp only: assms) simp
  then have gate: "50 \<le> length (strip text)"
    using total_words_le_length [of "text"] by linarith
  have s: "analyze_structure text = Some 1"
    using assms by (rule analyze_structure_uniform)
  obtain p s' v c f a r where *:
    "analyze_structure text = Some s'"
    "analyze_text text = Some (Inr \<lparr>
       ai_probability = py_round (weighted_average p v s' c (check_repetition text) * 100) 2,
       likelihood = fst (confidence_level (weighted_average p v s' c (check_repetition text))),
       message = snd (confidence_level (weighted_average p v s' c (check_repetition text))),
       metrics = \<lparr>
         pattern_score = py_round (p * 100) 2,
         vocabulary_score = py_round (v * 100) 2,
         structure_score = py_round (s' * 100) 2,
         consistency_score = py_round (c * 100) 2,
         repetition_score = py_round (check_repetition text * 100) 2 \<rparr>,
       indicators = f,
       statistics = \<lparr>
         word_count = length (split_ws text),
         sentence_count = length (re_split text),
         stat_avg_sentence_length = a,
         stat_unique_word_ratio = r \<rparr> \<rparr>)"
    using analyze_text_success [OF gate] by blast
  from s *(1) have s1: "s' = 1" by simp
  show ?thesis
    apply (intro conjI gate)
     apply (simp add: s)
    apply (rule exI, rule conjI, rule *(2))
    apply (simp add: s1 py_round_100)
    done
qed

theorem uniform_sentences_structure_witness:
  "map (\<lambda>s. length (split_ws s)) (sentence_list ''a b c d e f g h i j k l m n o. a b c d e f g h i j k l m n o. a b c d e f g h i j k l m n o. a b c d e f g h i j k l m n o. a b c d e f g h i j k l m n o.'') = [15, 15, 15, 15, 15] \<and>
   50 \<le> length (strip ''a b c d e f g h i j k l m n o. a b c d e f g h i j k l m n o. a b c d e f g h i j k l m n o. a b c d e f g h i j k l m n o. a b c d e f g h i j k l m n o.'') \<and>
   analyze_structure ''a b c d e f g h i j k l m n o. a b c d e f g h i j k l m n o. a b c d e f g h i j k l m n o. a b c d e f g h i j k l m n o. a b c d e f g h i j k l m n o.'' = Some (0.6 + 0.4) \<and>
   (\<exists>result. analyze_text ''a b c d e f g h i j k l m n o. a b c d e f g h i j k l m n o. a b c d e f g h i j k l m n o. a b c d e f g h i j k l m n o. a b c d e f g h i j k l m n o.'' = Some (Inr result) \<and>
       structure_score (metrics result) = 100)"
proof -
  have words: "map (\<lambda>s. length (split_ws s)) (sentence_list ''a b c d e f g h i j k l m n o. a b c d e f g h i j k l m n o. a b c d e f g h i j k l m n o. a b c d e f g h i j k l m n o. a b c d e f g h i j k l m n o.'') = [15, 15, 15, 15, 15]"
    by code_simp
  show ?thesis
    using words uniform_sentences_structure [OF words] by blast
qed

subsection \<open>The statistics block\<close>

text \<open>
  Claim C2, evaluated on a text of three sentences that ends with a full stop. The
  statistics report \<^verbatim>\<open>len(re.split(r'[.!?]+', text))\<close>, which counts the empty piece after
  the last full stop: the sentence count is 4, while the sentence list of the analyzers
  and of \<^verbatim>\<open>_avg_sentence_length\<close> has 3 entries (11 words over 3 sentences, 3.67).
\<close>

theorem sentence_count_includes_empty_piece:
  "\<exists>result. analyze_text ''One two three. Four five six. Seven eight nine ten eleven.'' = Some (Inr result) \<and>
     sentence_count (statistics result) = 4 \<and>
     length (sentence_list ''One two three. Four five six. Seven eight nine ten eleven.'') = 3 \<and>
     stat_avg_sentence_length (statistics result) = 3.67"
proof -
  have gate: "50 \<le> length (strip ''One two three. Four five six. Seven eight nine ten eleven.'')"
    by code_simp
  have pieces: "length (re_split ''One two three. Four five six. Seven eight nine ten eleven.'') = 4"
    by code_simp
  have sentences: "length (sentence_list ''One two three. Four five six. Seven eight nine ten eleven.'') = 3"
    by code_simp
  have avg: "avg_sentence_length ''One two three. Four five six. Seven eight nine ten eleven.'' = Some 3.67"
    by code_simp
  obtain p s v c f a r where *:
    "avg_sentence_length ''One two three. Four five six. Seven eight nine ten eleven.'' = Some a"
    "analyze_text ''One two three. Four five six. Seven eight nine ten eleven.'' = Some (Inr \<lparr>
       ai_probability = py_round (weighted_average p v s c (check_repetition ''One two three. Four five six. Seven eight nine ten eleven.'') * 100) 2,
       likelihood = fst (confidence_level (weighted_average p v s c (check_repetition ''One two three. Four five six. Seven eight nine ten eleven.''))),
       message = snd (confidence_level (weighted_average p v s c (check_repetition ''One two three. Four five six. Seven eight nine ten eleven.''))),
       metrics = \<lparr>
         pattern_score = py_round (p * 100) 2,
         vocabulary_score = py_round (v * 100) 2,
         structure_score = py_round (s * 100) 2,
         consistency_score = py_round (c * 100) 2,
         repetition_score = py_round (check_repetition ''One two three. Four five six. Seven eight nine ten eleven.'' * 100) 2 \<rparr>,
       indicators = f,
       statistics = \<lparr>
         word_count = length (split_ws ''One two three. Four five six. Seven eight nine ten eleven.''),
         sentence_count = length (re_split ''One two three. Four five six. Seven eight nine ten eleven.''),
         stat_avg_sentence_length = a,
         stat_unique_word_ratio = r \<rparr> \<rparr>)"
    using analyze_text_success [OF gate] by blast
  from avg *(1) have a: "a = 3.67" by simp
  show ?thesis
    apply (rule exI, rule conjI, rule *(2))
    apply (simp only: analysis.simps statistics.simps pieces sentences a)
    done
qed

subsection \<open>The pattern matcher\<close>

lemma transition_Some:
  assumes "split_ws (lower text) \<noteq> []"
  shows "truediv (real (count_in_lexicon ai_transitions (split_ws (lower text))))
           (real (length (split_ws (lower text)))) = Some (transition_density text)"
  using assms by (simp add: truediv_def transition_density_def)

lemma check_ai_patterns_value:
  "check_ai_patterns text =
     Some (min (min (real (length (filter (\<lambda>pattern. re_search True pattern (lower text))
                                      ai_patterns)) * 0.25) 0.8
                + transition_contribution text) 1)
   \<and> length ai_patterns = 14"
proof -
  let ?m = "length (filter (\<lambda>pattern. re_search True pattern (lower text)) ai_patterns)"
  have score: "(if ?m > 0 then 0 + min (real ?m * 0.25) 0.8 else 0) = min (real ?m * 0.25) 0.8"
    by simp
  have n: "length ai_patterns = 14" by (simp add: ai_patterns_def)
  show ?thesis
  proof (cases "split_ws (lower text) = []")
    case True
    have "check_ai_patterns text = Some (min (min (real ?m * 0.25) 0.8) 1.0)"
      unfolding check_ai_patterns_def Let_def
      by (simp only: True score not_True_eq_False if_False bind.bind_lunit simp_thms)
    then show ?thesis using True n by (simp add: transition_contribution_def)
  next
    case False
    have "check_ai_patterns text =
        Some (min (if transition_density text \<ge> 0.08
                   then min (real ?m * 0.25) 0.8 + min (transition_density text * 3) 0.5
                   else if transition_density text \<ge> 0.05 then min (real ?m * 0.25) 0.8 + 0.2
                   else min (real ?m * 0.25) 0.8) 1.0)"
      unfolding check_ai_patterns_def Let_def
      by (simp only: False score not_False_eq_True if_True bind.bind_lunit
          transition_Some [OF False])
    then show ?thesis using False n by (simp add: transition_contribution_def)
  qed
qed



subsection \<open>Repetition and the report of repeated openers\<close>

lemma count_list_replicate: "count_list (replicate n x) x = n"
  by (induction n) simp_all

lemma remdups_replicate_eq: "remdups (replicate n x) = (if n = 0 then [] else [x])"
  by (induction n) simp_all

lemma counter_replicate: "0 < n \<Longrightarrow> counter (replicate n x) = [(x, n)]"
  by (simp add: counter_def remdups_replicate_eq count_list_replicate)

lemma count_in_counter_values:
  "k \<in> set xs \<Longrightarrow> count_list xs k \<in> set (counter_values (counter xs))"
  by (auto simp: counter_def counter_values_def image_iff)

lemma check_repetition_same_opener:
  assumes "3 \<le> length (sentence_list text)"
    and "sentence_starts (sentence_list text) = replicate (length (sentence_list text)) w"
    and "3 \<le> count_list (sentence_bigrams (sentence_list text)) b"
  shows "0.5 \<le> check_repetition text"
proof -
  let ?n = "length (sentence_list text)"
  let ?bigrams = "sentence_bigrams (sentence_list text)"
  let ?repeated = "length (filter (\<lambda>count. count > 2) (counter_values (counter ?bigrams)))"
  have three: "\<not> ?n < 3" using assms(1) by simp
  have pos: "0 < ?n" using assms(1) by linarith
  have "counter (replicate ?n w) = [(w, ?n)]"
    by (rule counter_replicate [OF pos])
  then have "counter (sentence_starts (sentence_list text)) = [(w, ?n)]"
    by (simp only: assms(2))
  then have opener: "\<exists>count \<in> set (counter_values (counter (sentence_starts (sentence_list text)))).
      count > 2"
    using assms(1) by (simp add: counter_values_def)
  have "b \<in> set ?bigrams"
    using assms(3) count_list_0_iff [of ?bigrams b] by auto
  then have mem: "count_list ?bigrams b \<in> set (counter_values (counter ?bigrams))"
    by (rule count_in_counter_values)
  have "2 < count_list ?bigrams b" using assms(3) by linarith
  with mem have "\<exists>count \<in> set (counter_values (counter ?bigrams)). 2 < count"
    by (rule bexI [rotated])
  then have "filter (\<lambda>count. count > 2) (counter_values (counter ?bigrams)) \<noteq> []"
    by (simp add: filter_empty_conv)
  then have rep: "0 < ?repeated" by (rule length_greater_0_conv [THEN iffD2])
  then have ne: "?bigrams \<noteq> []"
    by (auto simp: counter_def counter_values_def)
  have "1 \<le> real ?repeated" using rep by linarith
  then have bonus: "0.2 \<le> min (real ?repeated * 0.2) 0.5" by simp
  have "check_repetition text = min (0 + 0.3 + min (real ?repeated * 0.2) 0.5) 1.0"
    unfolding check_repetition_def Let_def
    by (simp only: three if_False opener if_True ne not_False_eq_True rep simp_thms)
  then show ?thesis using bonus by simp
qed


lemma check_repetitive_starts_same:
  assumes "3 < length sentences"
    and "sentence_starts sentences = replicate (length sentences) w"
  shows "check_repetitive_starts sentences ind =
    Some (ind @ [Repetitive_openings w (length sentences)])"
proof -
  have pos: "0 < length sentences" using assms(1) by linarith
  have "counter (replicate (length sentences) w) = [(w, length sentences)]"
    by (rule counter_replicate [OF pos])
  then have c: "counter (sentence_starts sentences) = [(w, length sentences)]"
    by (simp only: assms(2))
  have m: "py_max (counter_values [(w, length sentences)]) = Some (length sentences)"
    by (simp add: py_max_def counter_values_def)
  have k: "py_max_key (counter_get [(w, length sentences)]) (map fst [(w, length sentences)])
      = Some w"
    by (simp add: py_max_key_def)
  have two: "2 < length sentences" using assms(1) by linarith
  show ?thesis
    unfolding check_repetitive_starts_def Let_def
    by (simp only: assms(1) if_True c m k two bind.bind_lunit)
qed

text \<open>
  Claim C4, amended. Take a text that passes the length gate, whose three or more
  sentences all begin with "The" (their lowered first words are all "the") and in which
  some bigram occurs three times. Its repetition metric is greater than 0. With exactly
  three sentences the indicator list has no "Repetitive sentence openings" entry, since
  the reporter looks at the openers only when there are more than three sentences; with
  more than three it has the entry that names "the" and the number of sentences.
\<close>

theorem repetitive_openings:
  assumes "50 \<le> length (strip text)"
    and "3 \<le> length (sentence_list text)"
    and "sentence_starts (sentence_list text) = replicate (length (sentence_list text)) ''the''"
    and "3 \<le> count_list (sentence_bigrams (sentence_list text)) bigram"
  shows "\<exists>result. analyze_text text = Some (Inr result) \<and>
     0 < repetition_score (metrics result) \<and>
     (length (sentence_list text) = 3 \<longrightarrow>
        (\<forall>w n. Repetitive_openings w n \<notin> set (indicators result))) \<and>
     (3 < length (sentence_list text) \<longrightarrow>
        Repetitive_openings ''the'' (length (sentence_list text)) \<in> set (indicators result))"
proof -
  obtain p s v c f a r where *:
    "get_indicators text = Some f"
    "analyze_text text = Some (Inr \<lparr>
       ai_probability = py_round (weighted_average p v s c (check_repetition text) * 100) 2,
       likelihood = fst (confidence_level (weighted_average p v s c (check_repetition text))),
       message = snd (confidence_level (weighted_average p v s c (check_repetition text))),
       metrics = \<lparr>
         pattern_score = py_round (p * 100) 2,
         vocabulary_score = py_round (v * 100) 2,
         structure_score = py_round (s * 100) 2,
         consistency_score = py_round (c * 100) 2,
         repetition_score = py_round (check_repetition text * 100) 2 \<rparr>,
       indicators = f,
       statistics = \<lparr>
         word_count = length (split_ws text),
         sentence_count = length (re_split text),
         stat_avg_sentence_length = a,
         stat_unique_word_ratio = r \<rparr> \<rparr>)"
    using analyze_text_success [OF assms(1)] by blast
  have "0.5 \<le> check_repetition text"
    using assms(2,3,4) by (rule check_repetition_same_opener)
  then have "of_int 5000 \<le> check_repetition text * 100 * 10 ^ 2" by simp
  then have "of_int 5000 / 10 ^ 2 \<le> py_round (check_repetition text * 100) 2"
    by (rule py_round_ge)
  then have metric: "0 < py_round (check_repetition text * 100) 2" by simp
  obtain rest tail where shape:
    "get_indicators text =
       Some (let l = check_explicit_patterns (lower text) [] @ rest @ tail
             in if l = [] then [No_strong_indicators] else l)"
    "\<forall>w n. Repetitive_openings w n \<notin> set rest"
    "check_repetitive_starts (sentence_list text) [] = Some tail"
    using get_indicators_shape [of "text"] by blast
  have f: "f = (let l = check_explicit_patterns (lower text) [] @ rest @ tail
             in if l = [] then [No_strong_indicators] else l)"
    using *(1) shape(1) by simp
  have few: "\<forall>w n. Repetitive_openings w n \<notin> set f" if "length (sentence_list text) = 3"
  proof -
    have "check_repetitive_starts (sentence_list text) [] = Some []"
      using that by (intro check_repetitive_starts_few) simp
    then have "tail = []" using shape(3) by simp
    then show ?thesis
      using shape(2) no_openings_in_explicit [of _ _ "lower text"]
      by (simp add: f Let_def)
  qed
  have many: "Repetitive_openings ''the'' (length (sentence_list text)) \<in> set f"
    if "3 < length (sentence_list text)"
  proof -
    have "check_repetitive_starts (sentence_list text) [] =
        Some ([] @ [Repetitive_openings ''the'' (length (sentence_list text))])"
      using that assms(3) by (rule check_repetitive_starts_same)
    then have "tail = [Repetitive_openings ''the'' (length (sentence_list text))]"
      using shape(3) by simp
    then show ?thesis by (simp add: f Let_def)
  qed
  show ?thesis
    apply (rule exI, rule conjI, rule *(2))
    using metric few many apply simp
    done
qed

theorem repetitive_openings_witness:
  "50 \<le> length (strip ''The cat sat on the mat. The cat ran to the hut. The cat hid in the box.'') \<and>
   length (sentence_list ''The cat sat on the mat. The cat ran to the hut. The cat hid in the box.'') = 3 \<and>
   sentence_starts (sentence_list ''The cat sat on the mat. The cat ran to the hut. The cat hid in the box.'') = replicate (length (sentence_list ''The cat sat on the mat. The cat ran to the hut. The cat hid in the box.'')) ''the'' \<and>
   3 \<le> count_list (sentence_bigrams (sentence_list ''The cat sat on the mat. The cat ran to the hut. The cat hid in the box.'')) ''the cat'' \<and>
   (\<exists>result. analyze_text ''The cat sat on the mat. The cat ran to the hut. The cat hid in the box.'' = Some (Inr result) \<and>
      0 < repetition_score (metrics result) \<and>
      (\<forall>w n. Repetitive_openings w n \<notin> set (indicators result))) \<and>
   50 \<le> length (strip ''The cat sat on the mat. The cat ran to the hut. The cat hid in the box. The cat got in the van.'') \<and>
   3 < length (sentence_list ''The cat sat on the mat. The cat ran to the hut. The cat hid in the box. The cat got in the van.'') \<and>
   sentence_starts (sentence_list ''The cat sat on the mat. The cat ran to the hut. The cat hid in the box. The cat got in the van.'') = replicate (length (sentence_list ''The cat sat on the mat. The cat ran to the hut. The cat hid in the box. The cat got in the van.'')) ''the'' \<and>
   3 \<le> count_list (sentence_bigrams (sentence_list ''The cat sat on the mat. The cat ran to the hut. The cat hid in the box. The cat got in the van.'')) ''the cat'' \<and>
   (\<exists>result. analyze_text ''The cat sat on the mat. The cat ran to the hut. The cat hid in the box. The cat got in the van.'' = Some (Inr result) \<and>
      0 < repetition_score (metrics result) \<and>
      Repetitive_openings ''the'' 4 \<in> set (indicators result))"
proof -
  have g3: "50 \<le> length (strip ''The cat sat on the mat. The cat ran to the hut. The cat hid in the box.'')"
    by code_simp
  have n3: "length (sentence_list ''The cat sat on the mat. The cat ran to the hut. The cat hid in the box.'') = 3"
    by code_simp
  have s3: "sentence_starts (sentence_list ''The cat sat on the mat. The cat ran to the hut. The cat hid in the box.'') = replicate (length (sentence_list ''The cat sat on the mat. The cat ran to the hut. The cat hid in the box.'')) ''the''"
    by code_simp
  have b3: "3 \<le> count_list (sentence_bigrams (sentence_list ''The cat sat on the mat. The cat ran to the hut. The cat hid in the box.'')) ''the cat''"
    by code_simp
  have g4: "50 \<le> length (strip ''The cat sat on the mat. The cat ran to the hut. The cat hid in the box. The cat got in the van.'')"
    by code_simp
  have n4: "length (sentence_list ''The cat sat on the mat. The cat ran to the hut. The cat hid in the box. The cat got in the van.'') = 4"
    by code_simp
  have s4: "sentence_starts (sentence_list ''The cat sat on the mat. The cat ran to the hut. The cat hid in the box. The cat got in the van.'') = replicate (length (sentence_list ''The cat sat on the mat. The cat ran to the hut. The cat hid in the box. The cat got in the van.'')) ''the''"
    by code_simp
  have b4: "3 \<le> count_list (sentence_bigrams (sentence_list ''The cat sat on the mat. The cat ran to the hut. The cat hid in the box. The cat got in the van.'')) ''the cat''"
    by code_simp
  have m3: "3 \<le> length (sentence_list ''The cat sat on the mat. The cat ran to the hut. The cat hid in the box.'')" using n3 by simp
  have m4: "3 \<le> length (sentence_list ''The cat sat on the mat. The cat ran to the hut. The cat hid in the box. The cat got in the van.'')" using n4 by simp
  have l4: "3 < length (sentence_list ''The cat sat on the mat. The cat ran to the hut. The cat hid in the box. The cat got in the van.'')" using n4 by simp
  have r3: "\<exists>result. analyze_text ''The cat sat on the mat. The cat ran to the hut. The cat hid in the box.'' = Some (Inr result) \<and>
      0 < repetition_score (metrics result) \<and>
      (\<forall>w n. Repetitive_openings w n \<notin> set (indicators result))"
    using repetitive_openings [OF g3 m3 s3 b3] n3 by auto
  have r4: "\<exists>result. analyze_text ''The cat sat on the mat. The cat ran to the hut. The cat hid in the box. The cat got in the van.'' = Some (Inr result) \<and>
      0 < repetition_score (metrics result) \<and>
      Repetitive_openings ''the'' 4 \<in> set (indicators result)"
    using repetitive_openings [OF g4 m4 s4 b4] n4 by auto
  show ?thesis
    by (intro conjI g3 n3 s3 b3 r3 g4 l4 s4 b4 r4)
qed

text \<open>
  Claim C4 as stated fails on three sentences that all begin with "The" and repeat the
  bigram "the cat" three times: the text passes the gate, and the indicator list of its
  result is exactly the entry on consistent sentence structure, with no entry on
  repetitive openings.
\<close>

theorem three_sentences_counterexample:
  "50 \<le> length (strip ''The cat sat on the mat. The cat ran to the hut. The cat hid in the box.'') \<and>
   sentence_starts (sentence_list ''The cat sat on the mat. The cat ran to the hut. The cat hid in the box.'') = [''the'', ''the'', ''the''] \<and>
   count_list (sentence_bigrams (sentence_list ''The cat sat on the mat. The cat ran to the hut. The cat hid in the box.'')) ''the cat'' = 3 \<and>
   map_option (map_sum id indicators) (analyze_text ''The cat sat on the mat. The cat ran to the hut. The cat hid in the box.'') = Some (Inr [Consistent_structure])"
proof -
  have gate: "50 \<le> length (strip ''The cat sat on the mat. The cat ran to the hut. The cat hid in the box.'')"
    by code_simp
  have starts: "sentence_starts (sentence_list ''The cat sat on the mat. The cat ran to the hut. The cat hid in the box.'') = [''the'', ''the'', ''the'']"
    by code_simp
  have bigram: "count_list (sentence_bigrams (sentence_list ''The cat sat on the mat. The cat ran to the hut. The cat hid in the box.'')) ''the cat'' = 3"
    by code_simp
  have f1: "check_explicit_patterns (lower ''The cat sat on the mat. The cat ran to the hut. The cat hid in the box.'') [] = []"
    by code_simp
  have f2: "check_buzzwords (split_ws (lower ''The cat sat on the mat. The cat ran to the hut. The cat hid in the box.'')) [] = Some []"
    by code_simp
  have f3: "check_transitions (split_ws (lower ''The cat sat on the mat. The cat ran to the hut. The cat hid in the box.'')) [] = Some []"
    by code_simp
  have n: "length (sentence_list ''The cat sat on the mat. The cat ran to the hut. The cat hid in the box.'') = 3"
    by code_simp
  have lengths: "map (\<lambda>s. length (split_ws s)) (sentence_list ''The cat sat on the mat. The cat ran to the hut. The cat hid in the box.'') = [6, 6, 6]"
    by code_simp
  have cv: "coeff_variation [6, 6, 6] = Some 0"
    by (simp add: coeff_variation_Some)
  have more: "2 < length (sentence_list ''The cat sat on the mat. The cat ran to the hut. The cat hid in the box.'')" using n by simp
  have f4: "check_structure_consistency (sentence_list ''The cat sat on the mat. The cat ran to the hut. The cat hid in the box.'') [] = Some [Consistent_structure]"
    unfolding check_structure_consistency_def Let_def
    by (simp only: more if_True lengths cv bind.bind_lunit) simp
  have f5: "check_balanced_paragraphs (paragraph_list ''The cat sat on the mat. The cat ran to the hut. The cat hid in the box.'') [Consistent_structure]
      = Some [Consistent_structure]"
    by code_simp
  have le: "length (sentence_list ''The cat sat on the mat. The cat ran to the hut. The cat hid in the box.'') \<le> 3" using n by simp
  have f6: "check_repetitive_starts (sentence_list ''The cat sat on the mat. The cat ran to the hut. The cat hid in the box.'') [Consistent_structure]
      = Some [Consistent_structure]"
    using le by (rule check_repetitive_starts_few)
  have found: "get_indicators ''The cat sat on the mat. The cat ran to the hut. The cat hid in the box.'' = Some [Consistent_structure]"
    unfolding get_indicators_def Let_def
    by (simp only: f1 f2 f3 f4 f5 f6 bind.bind_lunit) simp
  obtain p s v c f a r where *:
    "get_indicators ''The cat sat on the mat. The cat ran to the hut. The cat hid in the box.'' = Some f"
    "analyze_text ''The cat sat on the mat. The cat ran to the hut. The cat hid in the box.'' = Some (Inr \<lparr>
       ai_probability = py_round (weighted_average p v s c (check_repetition ''The cat sat on the mat. The cat ran to the hut. The cat hid in the box.'') * 100) 2,
       likelihood = fst (confidence_level (weighted_average p v s c (check_repetition ''The cat sat on the mat. The cat ran to the hut. The cat hid in the box.''))),
       message = snd (confidence_level (weighted_average p v s c (check_repetition ''The cat sat on the mat. The cat ran to the hut. The cat hid in the box.''))),
       metrics = \<lparr>
         pattern_score = py_round (p * 100) 2,
         vocabulary_score = py_round (v * 100) 2,
         structure_score = py_round (s * 100) 2,
         consistency_score = py_round (c * 100) 2,
         repetition_score = py_round (check_repetition ''The cat sat on the mat. The cat ran to the hut. The cat hid in the box.'' * 100) 2 \<rparr>,
       indicators = f,
       statistics = \<lparr>
         word_count = length (split_ws ''The cat sat on the mat. The cat ran to the hut. The cat hid in the box.''),
         sentence_count = length (re_split ''The cat sat on the mat. The cat ran to the hut. The cat hid in the box.''),
         stat_avg_sentence_length = a,
         stat_unique_word_ratio = r \<rparr> \<rparr>)"
    using analyze_text_success [OF gate] by blast
  from found *(1) have f: "f = [Consistent_structure]" by simp
  have "map_option (map_sum id indicators) (analyze_text ''The cat sat on the mat. The cat ran to the hut. The cat hid in the box.'') = Some (Inr [Consistent_structure])"
    by (simp add: *(2) f)
  then show ?thesis
    using gate starts bigram by (intro conjI)
qed

subsection \<open>Explicit self-reference: matcher and reporter\<close>

lemma rmatch_bounded_Or:
  "rmatch ic (bounded (Or a b)) cur = rmatch ic (bounded a) cur @ rmatch ic (bounded b) cur"
  by (simp add: bounded_def)

lemma search_from_bounded_Or:
  "search_from ic (bounded (Or a b)) (prev, s) \<longleftrightarrow>
     search_from ic (bounded a) (prev, s) \<or> search_from ic (bounded b) (prev, s)"
proof (induction s arbitrary: prev)
  case Nil
  show ?case by (simp only: search_from.simps rmatch_bounded_Or append_is_Nil_conv de_Morgan_conj)
next
  case (Cons c cs)
  show ?case
    by (simp only: search_from.simps rmatch_bounded_Or append_is_Nil_conv de_Morgan_conj Cons)
      blast
qed

lemma re_search_bounded_Or:
  "re_search ic (bounded (Or a b)) t \<longleftrightarrow>
     re_search ic (bounded a) t \<or> re_search ic (bounded b) t"
  by (simp only: re_search_def search_from_bounded_Or)

lemma lit_match_ignorecase:
  "set (lit_match False s cur) \<subseteq> set (lit_match True s cur)"
proof (induction s arbitrary: cur)
  case Nil
  show ?case by simp
next
  case (Cons p ps)
  obtain prev t where cur: "cur = (prev, t)" by (cases cur)
  show ?case
  proof (cases t)
    case Nil
    then show ?thesis by (simp add: cur)
  next
    case (Cons c cs)
    then show ?thesis using Cons.IH [of "(Some c, cs)"] by (auto simp: cur)
  qed
qed

lemma rmatch_ignorecase:
  "set (rmatch False r cur) \<subseteq> set (rmatch True r cur)"
proof (induction r arbitrary: cur)
  case (Lit s)
  show ?case using lit_match_ignorecase by simp
next
  case (Cat r1 r2)
  show ?case using Cat.IH by (simp only: rmatch.simps set_concat set_map) blast
next
  case (Or r1 r2)
  show ?case using Or.IH(1) [of cur] Or.IH(2) [of cur]
    by (simp only: rmatch.simps set_append) blast
qed simp_all

lemma search_from_ignorecase:
  "search_from False r (prev, s) \<Longrightarrow> search_from True r (prev, s)"
proof (induction s arbitrary: prev)
  case Nil
  then show ?case using rmatch_ignorecase [of r "(prev, [])"] by auto
next
  case (Cons c cs)
  then show ?case using rmatch_ignorecase [of r "(prev, c # cs)"] by auto
qed

lemma re_search_ignorecase: "re_search False r t \<Longrightarrow> re_search True r t"
  by (simp add: re_search_def search_from_ignorecase)

lemma transition_contribution_nonneg: "0 \<le> transition_contribution text"
  by (simp add: transition_contribution_def)

lemma ne_Nil_if_mem: "x \<in> set xs \<Longrightarrow> xs \<noteq> []"
  by auto

text \<open>
  Claim C10. Take a text that passes the length gate and contains the phrase "I'm an AI"
  (as whole words, in any letter case) and none of "as an AI", "I am an AI", "language
  model", "AI assistant". The matcher's self-reference expression, one of the 14 it
  counts, matches, so the pattern metric is at least 25; the reporter's own expression
  does not match, and the indicator list has no entry on explicit self-reference.
\<close>

theorem self_reference_unreported:
  assumes "50 \<le> length (strip text)"
    and "re_search True (bounded (Lit ''I'm an AI'')) (lower text)"
    and "\<not> re_search True (bounded (Lit ''as an AI'')) (lower text)"
    and "\<not> re_search True (bounded (Lit ''I am an AI'')) (lower text)"
    and "\<not> re_search True (bounded (Lit ''language model'')) (lower text)"
    and "\<not> re_search True (bounded (Lit ''AI assistant'')) (lower text)"
  shows "re_search True self_reference_pattern (lower text) \<and>
    self_reference_pattern \<in> set ai_patterns \<and>
    \<not> re_search False indicator_self_reference (lower text) \<and>
    (\<exists>result. analyze_text text = Some (Inr result) \<and>
       25 \<le> pattern_score (metrics result) \<and>
       Explicit_self_reference \<notin> set (indicators result))"
proof -
  have matcher: "re_search True self_reference_pattern (lower text)"
    using assms(2) by (simp add: self_reference_pattern_def re_search_bounded_Or)
  have listed: "self_reference_pattern \<in> set ai_patterns"
    by (simp add: ai_patterns_def)
  have reporter: "\<not> re_search False indicator_self_reference (lower text)"
    using assms(3-6) re_search_ignorecase [of "bounded (Lit ''as an AI'')" "lower text"]
      re_search_ignorecase [of "bounded (Lit ''I am an AI'')" "lower text"]
      re_search_ignorecase [of "bounded (Lit ''language model'')" "lower text"]
      re_search_ignorecase [of "bounded (Lit ''AI assistant'')" "lower text"]
    by (simp add: indicator_self_reference_def re_search_bounded_Or) blast
  let ?m = "length (filter (\<lambda>pattern. re_search True pattern (lower text)) ai_patterns)"
  have "self_reference_pattern \<in> set (filter (\<lambda>pattern. re_search True pattern (lower text))
      ai_patterns)"
    using matcher listed by simp
  then have "filter (\<lambda>pattern. re_search True pattern (lower text)) ai_patterns \<noteq> []"
    by (rule ne_Nil_if_mem)
  then have "0 < ?m" by (rule length_greater_0_conv [THEN iffD2])
  then have "1 \<le> real ?m" by linarith
  then have quarter: "0.25 \<le> min (real ?m * 0.25) 0.8" by simp
  obtain p s v c f a r where *:
    "check_ai_patterns text = Some p"
    "get_indicators text = Some f"
    "analyze_text text = Some (Inr \<lparr>
       ai_probability = py_round (weighted_average p v s c (check_repetition text) * 100) 2,
       likelihood = fst (confidence_level (weighted_average p v s c (check_repetition text))),
       message = snd (confidence_level (weighted_average p v s c (check_repetition text))),
       metrics = \<lparr>
         pattern_score = py_round (p * 100) 2,
         vocabulary_score = py_round (v * 100) 2,
         structure_score = py_round (s * 100) 2,
         consistency_score = py_round (c * 100) 2,
         repetition_score = py_round (check_repetition text * 100) 2 \<rparr>,
       indicators = f,
       statistics = \<lparr>
         word_count = length (split_ws text),
         sentence_count = length (re_split text),
         stat_avg_sentence_length = a,
         stat_unique_word_ratio = r \<rparr> \<rparr>)"
    using analyze_text_success [OF assms(1)] by blast
  have "p = min (min (real ?m * 0.25) 0.8 + transition_contribution text) 1"
    using *(1) check_ai_patterns_value [of "text"] by simp
  then have "0.25 \<le> p"
    using quarter transition_contribution_nonneg [of "text"] by simp
  then have "of_int 2500 \<le> p * 100 * 10 ^ 2" by simp
  then have "of_int 2500 / 10 ^ 2 \<le> py_round (p * 100) 2"
    by (rule py_round_ge)
  then have metric: "25 \<le> py_round (p * 100) 2" by simp
  obtain rest tail where shape:
    "get_indicators text =
       Some (let l = check_explicit_patterns (lower text) [] @ rest @ tail
             in if l = [] then [No_strong_indicators] else l)"
    "Explicit_self_reference \<notin> set rest"
    "check_repetitive_starts (sentence_list text) [] = Some tail"
    using get_indicators_shape [of "text"] by blast
  obtain extra where extra:
    "\<And>ind. check_repetitive_starts (sentence_list text) ind = Some (ind @ extra)"
    "extra = [] \<or> (\<exists>w n. extra = [Repetitive_openings w n])"
    using check_repetitive_starts_Some [of "sentence_list text"] by blast
  have "tail = extra" using shape(3) extra(1) [of "[]"] by simp
  then have tail: "Explicit_self_reference \<notin> set tail" using extra(2) by auto
  have explicit: "Explicit_self_reference \<notin> set (check_explicit_patterns (lower text) [])"
    using reporter by (simp add: self_reference_reported)
  have "f = (let l = check_explicit_patterns (lower text) [] @ rest @ tail
             in if l = [] then [No_strong_indicators] else l)"
    using *(2) shape(1) by simp
  then have absent: "Explicit_self_reference \<notin> set f"
    using explicit shape(2) tail by (simp add: Let_def)
  show ?thesis
    apply (intro conjI matcher listed reporter)
    apply (rule exI, rule conjI, rule *(3))
    using metric absent apply simp
    done
qed

theorem self_reference_unreported_witness:
  "50 \<le> length (strip ''Hello, I'm an AI and I write text about the weather today'') \<and>
   re_search True (bounded (Lit ''I'm an AI'')) (lower ''Hello, I'm an AI and I write text about the weather today'') \<and>
   \<not> re_search True (bounded (Lit ''as an AI'')) (lower ''Hello, I'm an AI and I write text about the weather today'') \<and>
   \<not> re_search True (bounded (Lit ''I am an AI'')) (lower ''Hello, I'm an AI and I write text about the weather today'') \<and>
   \<not> re_search True (bounded (Lit ''language model'')) (lower ''Hello, I'm an AI and I write text about the weather today'') \<and>
   \<not> re_search True (bounded (Lit ''AI assistant'')) (lower ''Hello, I'm an AI and I write text about the weather today'') \<and>
   re_search True self_reference_pattern (lower ''Hello, I'm an AI and I write text about the weather today'') \<and>
   (\<exists>result. analyze_text ''Hello, I'm an AI and I write text about the weather today'' = Some (Inr result) \<and>
       25 \<le> pattern_score (metrics result) \<and>
       Explicit_self_reference \<notin> set (indicators result))"
proof -
  have h1: "50 \<le> length (strip ''Hello, I'm an AI and I write text about the weather today'')"
    by code_simp
  have h2: "re_search True (bounded (Lit ''I'm an AI'')) (lower ''Hello, I'm an AI and I write text about the weather today'')"
    by code_simp
  have h3: "\<not> re_search True (bounded (Lit ''as an AI'')) (lower ''Hello, I'm an AI and I write text about the weather today'')"
    by code_simp
  have h4: "\<not> re_search True (bounded (Lit ''I am an AI'')) (lower ''Hello, I'm an AI and I write text about the weather today'')"
    by code_simp
  have h5: "\<not> re_search True (bounded (Lit ''language model'')) (lower ''Hello, I'm an AI and I write text about the weather today'')"
    by code_simp
  have h6: "\<not> re_search True (bounded (Lit ''AI assistant'')) (lower ''Hello, I'm an AI and I write text about the weather today'')"
    by code_simp
  note r = self_reference_unreported [OF h1 h2 h3 h4 h5 h6]
  show ?thesis
    by (intro conjI h1 h2 h3 h4 h5 h6 r [THEN conjunct1]
        r [THEN conjunct2, THEN conjunct2, THEN conjunct2])
qed

end
